theory Spec2Isabelle
  imports Main "HOL-Library.Sublist"
begin

section \<open>Python string primitives\<close>

text \<open>
  A Python \<open>str\<close> is modelled as a \<open>string\<close> whose characters are the code points
  0..255 (ASCII and Latin-1).  The classifications below are the ones Python 3 uses for
  these code points: \<open>str.lower\<close>, \<open>str.isalnum\<close>, and the classes \<open>\d\<close>, \<open>\s\<close> and
  \<open>\w\<close> of the \<open>re\<close> module on \<open>str\<close> patterns.
\<close>

definition cp :: "char \<Rightarrow> nat" where
  "cp c = of_char c"

definition lower_char :: "char \<Rightarrow> char" where
  "lower_char c =
     (if (65 \<le> cp c \<and> cp c \<le> 90) \<or> (192 \<le> cp c \<and> cp c \<le> 214) \<or> (216 \<le> cp c \<and> cp c \<le> 222)
      then char_of (cp c + 32) else c)"

definition lower :: "string \<Rightarrow> string" where
  "lower s = map lower_char s"

definition is_digit :: "char \<Rightarrow> bool" where
  "is_digit c = (48 \<le> cp c \<and> cp c \<le> 57)"

definition is_space :: "char \<Rightarrow> bool" where
  "is_space c = ((9 \<le> cp c \<and> cp c \<le> 13) \<or> (28 \<le> cp c \<and> cp c \<le> 32) \<or> cp c = 133 \<or> cp c = 160)"

definition is_alnum_char :: "char \<Rightarrow> bool" where
  "is_alnum_char c =
     ((48 \<le> cp c \<and> cp c \<le> 57) \<or> (65 \<le> cp c \<and> cp c \<le> 90) \<or> (97 \<le> cp c \<and> cp c \<le> 122)
      \<or> cp c = 170 \<or> cp c = 178 \<or> cp c = 179 \<or> cp c = 181 \<or> cp c = 185 \<or> cp c = 186
      \<or> (188 \<le> cp c \<and> cp c \<le> 190) \<or> (192 \<le> cp c \<and> cp c \<le> 214)
      \<or> (216 \<le> cp c \<and> cp c \<le> 246) \<or> (248 \<le> cp c \<and> cp c \<le> 255))"

definition is_word :: "char \<Rightarrow> bool" where
  "is_word c = (is_alnum_char c \<or> c = CHR ''_'')"

text \<open>\<open>word.isalnum()\<close>: false on the empty string.\<close>

definition isalnum :: "string \<Rightarrow> bool" where
  "isalnum w = (w \<noteq> [] \<and> list_all is_alnum_char w)"

text \<open>\<open>sub in s\<close> on strings: \<open>sub\<close> occurs in \<open>s\<close> as a contiguous substring.\<close>

fun str_in :: "string \<Rightarrow> string \<Rightarrow> bool" where
  "str_in sub [] = (sub = [])"
| "str_in sub (c # cs) = (prefix sub (c # cs) \<or> str_in sub cs)"

text \<open>\<open>any(w in s for w in ws)\<close>.\<close>

definition any_in :: "string list \<Rightarrow> string \<Rightarrow> bool" where
  "any_in ws s = list_ex (\<lambda>w. str_in w s) ws"

text \<open>\<open>col.split('_')[-1]\<close>: what follows the last underscore (all of it when there is none).\<close>

fun last_segment :: "string \<Rightarrow> string" where
  "last_segment [] = []"
| "last_segment (c # cs) = (if CHR ''_'' \<in> set cs then last_segment cs
                            else if c = CHR ''_'' then cs else c # cs)"

text \<open>\<open>sep.join(xs)\<close>.\<close>

fun join :: "string \<Rightarrow> string list \<Rightarrow> string" where
  "join sep [] = []"
| "join sep [x] = x"
| "join sep (x # y # ys) = x @ sep @ join sep (y # ys)"

text \<open>\<open>str(n)\<close> of a Python int, as the f-strings interpolate it.\<close>

definition digit_char :: "nat \<Rightarrow> char" where
  "digit_char d = char_of (48 + d)"

fun digits_of :: "nat \<Rightarrow> string" where
  "digits_of n = (if n < 10 then [digit_char n] else digits_of (n div 10) @ [digit_char (n mod 10)])"

declare digits_of.simps [simp del]

definition str_int :: "int \<Rightarrow> string" where
  "str_int i = (if i < 0 then CHR ''-'' # digits_of (nat (- i)) else digits_of (nat i))"

subsection \<open>The three regular expressions\<close>

text \<open>
  \<open>re.search(r'(\d+)\s*stars', text)\<close> and the same with \<open>forks\<close>.  At one start
  position the greedy \<open>\d+\<close> takes the whole run of digits and \<open>\s*\<close> the whole run of
  whitespace: giving a character back leaves a digit or a blank where the keyword must
  begin, so backtracking never finds another match there.  The search returns group 1 of
  the leftmost match.
\<close>

definition match_count_at :: "string \<Rightarrow> string \<Rightarrow> string option" where
  "match_count_at kw s =
     (let ds = takeWhile is_digit s in
      if ds = [] then None
      else if prefix kw (dropWhile is_space (dropWhile is_digit s)) then Some ds
      else None)"

fun search_count :: "string \<Rightarrow> string \<Rightarrow> string option" where
  "search_count kw [] = None"
| "search_count kw (c # cs) =
     (case match_count_at kw (c # cs) of
        Some ds \<Rightarrow> Some ds
      | None \<Rightarrow> search_count kw cs)"

text \<open>
  \<open>re.search(r"\btop\s+(\d+)\b", text_lower)\<close> and the same with \<open>bottom\<close>.  The match
  starts where the preceding character is not a word character (or at the start of the
  text), takes the keyword, at least one blank, at least one digit, and must be followed
  by a non-word character or the end of the text.
\<close>

definition match_rank_at :: "string \<Rightarrow> string \<Rightarrow> string option" where
  "match_rank_at kw s =
     (if prefix kw s then
        (let r = drop (length kw) s;
             ws = takeWhile is_space r;
             ds = takeWhile is_digit (dropWhile is_space r);
             rest = dropWhile is_digit (dropWhile is_space r)
         in if ws \<noteq> [] \<and> ds \<noteq> [] \<and> (case rest of [] \<Rightarrow> True | c # _ \<Rightarrow> \<not> is_word c)
            then Some ds else None)
      else None)"

fun search_rank_from :: "string \<Rightarrow> bool \<Rightarrow> string \<Rightarrow> string option" where
  "search_rank_from kw prev_word [] = None"
| "search_rank_from kw prev_word (c # cs) =
     (case (if prev_word then None else match_rank_at kw (c # cs)) of
        Some ds \<Rightarrow> Some ds
      | None \<Rightarrow> search_rank_from kw (is_word c) cs)"

definition search_rank :: "string \<Rightarrow> string \<Rightarrow> string option" where
  "search_rank kw s = search_rank_from kw False s"

section \<open>The analyzer's tables\<close>

text \<open>
  NLTK's \<open>word_tokenize\<close> and its English stop-word list are not part of the repository;
  they are parameters of the model.  The tokenizer may raise (its data may be missing):
  \<open>None\<close>.
\<close>

record nlp =
  word_tokenize :: "string \<Rightarrow> string list option"
  stop_words :: "string set"

definition keywords_tbl :: "(string \<times> string) list" where
  "keywords_tbl =
     [(''show'', ''SELECT''), (''display'', ''SELECT''), (''find'', ''SELECT''),
      (''search'', ''SELECT''), (''list'', ''SELECT''), (''count'', ''SELECT COUNT(*)''),
      (''analyze'', ''SELECT''), (''top'', ''SELECT''), (''most'', ''SELECT''),
      (''track'', ''SELECT''), (''monitor'', ''SELECT'')]"

record entity_info =
  patterns :: "string list"
  table :: string
  columns :: "string list"

definition entity_mapping :: "(string \<times> entity_info) list" where
  "entity_mapping =
     [(''repository'',
        \<lparr>patterns = [''repository'', ''repositories'', ''repo'', ''repos''],
         table = ''repositories'',
         columns = [''repo_id'', ''name'', ''url'', ''stars'', ''forks'']\<rparr>),
      (''author'',
        \<lparr>patterns = [''author'', ''authors'', ''contributor'', ''contributors'', ''developer'', ''developers''],
         table = ''authors'',
         columns = [''author_id'', ''name'', ''email'']\<rparr>),
      (''commit'',
        \<lparr>patterns = [''commit'', ''commits'', ''change'', ''changes''],
         table = ''commits'',
         columns = [''commit_id'', ''hash'', ''author_id'', ''repo_id'', ''timestamp'', ''message'']\<rparr>),
      (''file'',
        \<lparr>patterns = [''file'', ''files'', ''document'', ''documents'', ''code''],
         table = ''files'',
         columns = [''file_id'', ''repo_id'', ''path'', ''type'', ''status'']\<rparr>),
      (''diff'',
        \<lparr>patterns = [''diff'', ''difference'', ''changes'', ''modification'', ''modifications''],
         table = ''diffs'',
         columns = [''diff_id'', ''commit_id'', ''file_id'', ''lines_added'', ''lines_deleted'', ''change_type'']\<rparr>)]"

section \<open>The matchers\<close>

definition preprocess_text :: "nlp \<Rightarrow> string \<Rightarrow> string list" where
  "preprocess_text E text =
     (case word_tokenize E (lower text) of
        None \<Rightarrow> []
      | Some tokens \<Rightarrow> filter (\<lambda>word. isalnum word \<and> word \<notin> stop_words E) tokens)"

fun first_keyword :: "string list \<Rightarrow> string option" where
  "first_keyword [] = None"
| "first_keyword (token # tokens) =
     (case map_of keywords_tbl token of
        Some action \<Rightarrow> Some action
      | None \<Rightarrow> first_keyword tokens)"

definition identify_action :: "string list \<Rightarrow> string" where
  "identify_action tokens =
     (case first_keyword tokens of
        Some action \<Rightarrow> action
      | None \<Rightarrow>
          if list_ex (\<lambda>token. token \<in> set [''count'', ''total'', ''sum'']) tokens
          then ''SELECT COUNT(*)'' else ''SELECT'')"

definition mentions :: "string list \<Rightarrow> entity_info \<Rightarrow> bool" where
  "mentions words info = list_ex (\<lambda>syn. syn \<in> set words) (patterns info)"

fun first_entity :: "(string \<times> entity_info) list \<Rightarrow> string list \<Rightarrow> string option" where
  "first_entity [] words = None"
| "first_entity ((entity, info) # rest) words =
     (if mentions words info then Some (table info) else first_entity rest words)"

definition identify_table :: "string list \<Rightarrow> string option" where
  "identify_table words = first_entity entity_mapping words"

definition identify_columns :: "string list \<Rightarrow> string option \<Rightarrow> string list" where
  "identify_columns words tbl =
     (if list_ex (\<lambda>word. word \<in> set [''count'', ''how many'', ''total'']) words then [''COUNT(*)'']
      else
        (case find (\<lambda>(entity, info). Some (table info) = tbl) entity_mapping of
           None \<Rightarrow> [''*'']
         | Some (entity, table_info) \<Rightarrow>
             (let cols = filter (\<lambda>col. last_segment col \<in> set words) (columns table_info) in
              if cols \<noteq> [] then cols
              else if tbl = Some ''repositories'' then [''repo_id'', ''name'', ''stars'', ''forks'']
              else if tbl = Some ''authors'' then [''author_id'', ''name'', ''email'']
              else if tbl = Some ''commits'' then [''commit_id'', ''hash'', ''timestamp'']
              else if tbl = Some ''files'' then [''file_id'', ''path'', ''type'', ''status'']
              else if tbl = Some ''diffs'' then [''diff_id'', ''lines_added'', ''lines_deleted'']
              else [''*''])))"

text \<open>The operator of a count condition: the directional phrase is looked for in the whole text.\<close>

definition comparison :: "string \<Rightarrow> string" where
  "comparison text =
     (if str_in ''more than'' text \<or> str_in ''greater than'' text then ''>=''
      else if str_in ''less than'' text then ''<='' else ''='')"

definition count_condition :: "string \<Rightarrow> string \<Rightarrow> string list" where
  "count_condition metric text =
     (if str_in metric text then
        (case search_count metric text of
           Some num \<Rightarrow> [metric @ '' '' @ comparison text @ '' '' @ num]
         | None \<Rightarrow> [])
      else [])"

definition this_month_condition :: string where
  "this_month_condition =
     ''EXTRACT(MONTH FROM created_at) = EXTRACT(MONTH FROM CURRENT_DATE) AND EXTRACT(YEAR FROM created_at) = EXTRACT(YEAR FROM CURRENT_DATE)''"

definition last_month_condition :: string where
  "last_month_condition =
     ''created_at >= DATE_TRUNC('' @ [CHR 0x27] @ ''month'' @ [CHR 0x27] @
     '', CURRENT_DATE - INTERVAL '' @ [CHR 0x27] @ ''1 month'' @ [CHR 0x27] @
     '') AND created_at < DATE_TRUNC('' @ [CHR 0x27] @ ''month'' @ [CHR 0x27] @ '', CURRENT_DATE)''"

definition time_condition :: "string \<Rightarrow> string list" where
  "time_condition text =
     (if str_in ''this month'' text then [this_month_condition]
      else if str_in ''last month'' text then [last_month_condition]
      else [])"

definition identify_conditions :: "string \<Rightarrow> string list" where
  "identify_conditions text0 =
     (let text = lower text0 in
      count_condition ''stars'' text @ count_condition ''forks'' text @ time_condition text)"

section \<open>The special-case templates\<close>

text \<open>The three error values \<open>build_sql_query\<close> returns.\<close>

definition err_empty_input :: string where
  "err_empty_input = ''Error: Could not process the input text''"

definition err_no_table :: string where
  "err_no_table = ''Error: Could not identify the table''"

definition err_internal :: string where
  "err_internal = ''Error: Could not generate SQL query''"

text \<open>
  Each special case of \<open>build_sql_query\<close> is a test on the lowercased text and the SQL it
  returns.  \<open>where_commits_repo\<close> is the clause most of them splice in.
\<close>

definition where_commits_repo :: "int option \<Rightarrow> string" where
  "where_commits_repo repo_id =
     (case repo_id of Some r \<Rightarrow> ''WHERE commits.repo_id = '' @ str_int r @ '' '' | None \<Rightarrow> [])"

definition asks_bug_introducer :: "string \<Rightarrow> bool" where
  "asks_bug_introducer t =
     ((str_in ''author'' t \<or> str_in ''contributor'' t \<or> str_in ''developer'' t)
      \<and> str_in ''introduc'' t \<and> str_in ''bug'' t)"

definition sql_bug_introducer :: "string \<Rightarrow> int option \<Rightarrow> string" where
  "sql_bug_introducer t repo_id =
     (case repo_id of
        Some r \<Rightarrow>
          ''SELECT authors.name, COUNT(bugs.bug_id) AS bugs_introduced '' @
          ''FROM bugs '' @
          ''JOIN commits ON bugs.introduced_commit = commits.commit_id '' @
          ''JOIN authors ON commits.author_id = authors.author_id '' @
          ''WHERE commits.repo_id = '' @ str_int r @ '' '' @
          ''GROUP BY authors.author_id, authors.name '' @
          ''ORDER BY bugs_introduced DESC '' @
          ''LIMIT 1;''
      | None \<Rightarrow>
          ''SELECT authors.name, COUNT(bugs.bug_id) AS bugs_introduced '' @
          ''FROM bugs '' @
          ''JOIN commits ON bugs.introduced_commit = commits.commit_id '' @
          ''JOIN authors ON commits.author_id = authors.author_id '' @
          ''GROUP BY authors.author_id, authors.name '' @
          ''ORDER BY bugs_introduced DESC '' @
          ''LIMIT 1;'')"

definition asks_most_changed_file :: "string \<Rightarrow> bool" where
  "asks_most_changed_file t =
     (str_in ''most'' t \<and> str_in ''file'' t
      \<and> (str_in ''change'' t \<or> str_in ''changes'' t \<or> str_in ''lines'' t))"

definition sql_most_changed_file :: "string \<Rightarrow> int option \<Rightarrow> string" where
  "sql_most_changed_file t repo_id =
     (''SELECT files.path AS most_changed_file, SUM(diffs.lines_added + diffs.lines_deleted) AS total_changes '' @
      ''FROM files JOIN diffs ON files.file_id = diffs.file_id '' @
      ''JOIN commits ON diffs.commit_id = commits.commit_id '') @
     where_commits_repo repo_id @
     ''GROUP BY files.file_id, files.path ORDER BY total_changes DESC LIMIT 1;''"

definition asks_most_added_file :: "string \<Rightarrow> bool" where
  "asks_most_added_file t =
     (str_in ''most'' t \<and> str_in ''file'' t \<and> (str_in ''addition'' t \<or> str_in ''added'' t))"

definition sql_most_added_file :: "string \<Rightarrow> int option \<Rightarrow> string" where
  "sql_most_added_file t repo_id =
     (''SELECT files.path AS most_added_file, SUM(diffs.lines_added) AS total_additions '' @
      ''FROM files JOIN diffs ON files.file_id = diffs.file_id JOIN commits ON diffs.commit_id = commits.commit_id '') @
     where_commits_repo repo_id @
     ''GROUP BY files.file_id, files.path ORDER BY total_additions DESC LIMIT 1;''"

definition asks_most_deleted_file :: "string \<Rightarrow> bool" where
  "asks_most_deleted_file t =
     (str_in ''most'' t \<and> str_in ''file'' t \<and> (str_in ''deletion'' t \<or> str_in ''deleted'' t))"

definition sql_most_deleted_file :: "string \<Rightarrow> int option \<Rightarrow> string" where
  "sql_most_deleted_file t repo_id =
     (''SELECT files.path AS most_deleted_file, SUM(diffs.lines_deleted) AS total_deletions '' @
      ''FROM files JOIN diffs ON files.file_id = diffs.file_id JOIN commits ON diffs.commit_id = commits.commit_id '') @
     where_commits_repo repo_id @
     ''GROUP BY files.file_id, files.path ORDER BY total_deletions DESC LIMIT 1;''"

text \<open>
  \<open>top_match\<close> is \<open>search_rank ''top''\<close> of the lowercased text.  A renderer that reads
  \<open>group(1)\<close> of a match that is \<open>None\<close> would raise inside the outer \<open>try\<close>, whose
  handler returns \<open>err_internal\<close>.
\<close>

definition asks_top_files :: "string \<Rightarrow> bool" where
  "asks_top_files t = (search_rank ''top'' t \<noteq> None \<and> str_in ''file'' t)"

definition sql_top_files :: "string \<Rightarrow> int option \<Rightarrow> string" where
  "sql_top_files t repo_id =
     (case search_rank ''top'' t of
        None \<Rightarrow> err_internal
      | Some n \<Rightarrow>
          (''SELECT files.path, SUM(diffs.lines_added + diffs.lines_deleted) AS total_changes '' @
           ''FROM files JOIN diffs ON files.file_id = diffs.file_id JOIN commits ON diffs.commit_id = commits.commit_id '') @
          where_commits_repo repo_id @
          ''GROUP BY files.file_id, files.path ORDER BY total_changes DESC LIMIT '' @ n @ '';'')"

definition asks_top_contributor :: "string \<Rightarrow> bool" where
  "asks_top_contributor t =
     (str_in ''which developer contributed the most'' t
      \<or> (str_in ''most'' t \<and> any_in [''developer'', ''author'', ''contributor''] t
          \<and> any_in [''commit'', ''commits'', ''contributed''] t))"

definition sql_top_contributor :: "string \<Rightarrow> int option \<Rightarrow> string" where
  "sql_top_contributor t repo_id =
     (''SELECT authors.name AS top_contributor, COUNT(commits.commit_id) AS commit_count '' @
      ''FROM commits JOIN authors ON commits.author_id = authors.author_id '') @
     where_commits_repo repo_id @
     ''GROUP BY authors.author_id, authors.name ORDER BY commit_count DESC LIMIT 1;''"

definition asks_top_contributors_by_commit :: "string \<Rightarrow> bool" where
  "asks_top_contributors_by_commit t = str_in ''top contributors by commit'' t"

definition sql_top_contributors_by_commit :: "string \<Rightarrow> int option \<Rightarrow> string" where
  "sql_top_contributors_by_commit t repo_id =
     ''SELECT authors.name, COUNT(commits.commit_id) as commit_count FROM authors JOIN commits ON authors.author_id = commits.author_id GROUP BY authors.author_id, authors.name ORDER BY commit_count DESC LIMIT 10;''"

definition asks_top_n_contributors :: "string \<Rightarrow> bool" where
  "asks_top_n_contributors t = (search_rank ''top'' t \<noteq> None \<and> str_in ''contributor'' t)"

definition sql_top_n_contributors :: "string \<Rightarrow> int option \<Rightarrow> string" where
  "sql_top_n_contributors t repo_id =
     (case search_rank ''top'' t of
        None \<Rightarrow> err_internal
      | Some n \<Rightarrow>
          ''SELECT authors.name, COUNT(commits.commit_id) as commit_count FROM authors JOIN commits ON authors.author_id = commits.author_id GROUP BY authors.author_id, authors.name ORDER BY commit_count DESC LIMIT '' @ n @ '';'')"

definition asks_bottom_contributors :: "string \<Rightarrow> bool" where
  "asks_bottom_contributors t =
     ((search_rank ''bottom'' t \<noteq> None \<or> str_in ''bottom'' t)
      \<and> any_in [''contributor'', ''contributors'', ''author'', ''authors'', ''developer'', ''developers''] t)"

definition sql_bottom_contributors :: "string \<Rightarrow> int option \<Rightarrow> string" where
  "sql_bottom_contributors t repo_id =
     (let n = (case search_rank ''bottom'' t of Some d \<Rightarrow> d | None \<Rightarrow> ''3'') in
      (''SELECT authors.name AS name, COUNT(commits.commit_id) AS commit_count '' @
       ''FROM commits JOIN authors ON commits.author_id = authors.author_id '') @
      where_commits_repo repo_id @
      ''GROUP BY authors.author_id, authors.name ORDER BY commit_count ASC LIMIT '' @ n @ '';'')"

definition asks_commits_last_30_days :: "string \<Rightarrow> bool" where
  "asks_commits_last_30_days t = str_in ''commits from last 30 days'' t"

definition sql_commits_last_30_days :: "string \<Rightarrow> int option \<Rightarrow> string" where
  "sql_commits_last_30_days t repo_id =
     ''SELECT commits.commit_id, authors.name, repositories.name as repo_name, commits.message, commits.timestamp FROM commits JOIN authors ON commits.author_id = authors.author_id JOIN repositories ON commits.repo_id = repositories.repo_id WHERE commits.timestamp >= CURRENT_DATE - INTERVAL 30 DAY ORDER BY commits.timestamp DESC;''"

definition asks_most_active_30_days :: "string \<Rightarrow> bool" where
  "asks_most_active_30_days t =
     (str_in ''last 30 days'' t \<and> any_in [''developer'', ''author'', ''contributor''] t
      \<and> (str_in ''most'' t \<or> str_in ''top'' t))"

definition sql_most_active_30_days :: "string \<Rightarrow> int option \<Rightarrow> string" where
  "sql_most_active_30_days t repo_id =
     ''SELECT authors.name AS top_contributor, COUNT(commits.commit_id) AS commit_count FROM commits JOIN authors ON commits.author_id = authors.author_id WHERE commits.timestamp >= CURRENT_DATE - INTERVAL 30 DAY GROUP BY authors.author_id, authors.name ORDER BY commit_count DESC LIMIT 1;''"

definition asks_count_commits :: "string \<Rightarrow> bool" where
  "asks_count_commits t = ((str_in ''how many'' t \<or> str_in ''count'' t) \<and> str_in ''commit'' t)"

definition sql_count_commits :: "string \<Rightarrow> int option \<Rightarrow> string" where
  "sql_count_commits t repo_id =
     ''SELECT COUNT(*) AS total_commits FROM commits '' @
     (case repo_id of Some r \<Rightarrow> ''WHERE repo_id = '' @ str_int r @ '' '' | None \<Rightarrow> []) @
     '';''"

definition asks_count_contributors :: "string \<Rightarrow> bool" where
  "asks_count_contributors t =
     ((str_in ''how many'' t \<or> str_in ''count'' t) \<and> any_in [''contributor'', ''author'', ''developer''] t)"

definition sql_count_contributors :: "string \<Rightarrow> int option \<Rightarrow> string" where
  "sql_count_contributors t repo_id =
     (case repo_id of
        Some r \<Rightarrow>
          ''SELECT COUNT(DISTINCT commits.author_id) AS contributors FROM commits WHERE commits.repo_id = '' @ str_int r @ '';''
      | None \<Rightarrow> ''SELECT COUNT(DISTINCT authors.author_id) AS contributors FROM authors;'')"

definition asks_commit_most_changes :: "string \<Rightarrow> bool" where
  "asks_commit_most_changes t =
     (str_in ''which commit'' t \<and> (str_in ''most'' t \<and> str_in ''change'' t))"

definition sql_commit_most_changes :: "string \<Rightarrow> int option \<Rightarrow> string" where
  "sql_commit_most_changes t repo_id =
     ''SELECT commits.hash AS top_commit, SUM(diffs.lines_added + diffs.lines_deleted) AS total_changes FROM commits JOIN diffs ON commits.commit_id = diffs.commit_id '' @
     where_commits_repo repo_id @
     ''GROUP BY commits.commit_id, commits.hash ORDER BY total_changes DESC LIMIT 1;''"

definition asks_top_fixer :: "string \<Rightarrow> bool" where
  "asks_top_fixer t =
     (any_in [''developer'', ''author'', ''contributor''] t
      \<and> (str_in ''fix'' t \<or> str_in ''fixed'' t) \<and> str_in ''bug'' t)"

definition sql_top_fixer :: "string \<Rightarrow> int option \<Rightarrow> string" where
  "sql_top_fixer t repo_id =
     ''SELECT authors.name AS top_fixer, COUNT(bugs.bug_id) AS bugs_fixed FROM bugs JOIN commits ON bugs.fixed_commit = commits.commit_id JOIN authors ON commits.author_id = authors.author_id '' @
     where_commits_repo repo_id @
     ''GROUP BY authors.author_id, authors.name ORDER BY bugs_fixed DESC LIMIT 1;''"

definition asks_repository_most_changes :: "string \<Rightarrow> bool" where
  "asks_repository_most_changes t =
     (str_in ''repository'' t \<and> str_in ''most'' t \<and> (str_in ''change'' t \<or> str_in ''changes'' t))"

definition sql_repository_most_changes :: "string \<Rightarrow> int option \<Rightarrow> string" where
  "sql_repository_most_changes t repo_id =
     ''SELECT repositories.name AS top_repository, SUM(diffs.lines_added + diffs.lines_deleted) AS total_changes FROM repositories JOIN commits ON repositories.repo_id = commits.repo_id JOIN diffs ON commits.commit_id = diffs.commit_id GROUP BY repositories.repo_id, repositories.name ORDER BY total_changes DESC LIMIT 1;''"

definition asks_commits_per_repository :: "string \<Rightarrow> bool" where
  "asks_commits_per_repository t = str_in ''count commits per repository'' t"

definition sql_commits_per_repository :: "string \<Rightarrow> int option \<Rightarrow> string" where
  "sql_commits_per_repository t repo_id =
     ''SELECT repositories.name, COUNT(commits.commit_id) as commit_count FROM repositories LEFT JOIN commits ON repositories.repo_id = commits.repo_id GROUP BY repositories.repo_id, repositories.name ORDER BY commit_count DESC;''"

section \<open>The generic assembler and \<open>build_sql_query\<close>\<close>

text \<open>The clauses the generic path appends to \<open>action columns FROM table\<close>, in its order.\<close>

definition join_clause :: "string \<Rightarrow> string \<Rightarrow> string" where
  "join_clause text_lower tbl =
     (if str_in ''author'' text_lower \<and> tbl = ''commits''
      then '' JOIN authors ON commits.author_id = authors.author_id'' else []) @
     (if str_in ''repository'' text_lower \<and> tbl = ''commits''
      then '' JOIN repositories ON commits.repo_id = repositories.repo_id'' else [])"

definition where_clause :: "string list \<Rightarrow> string" where
  "where_clause conditions =
     (if conditions \<noteq> [] then '' WHERE '' @ join '' AND '' conditions else [])"

definition group_by_clause :: "string \<Rightarrow> string \<Rightarrow> string" where
  "group_by_clause text_lower tbl =
     (if any_in [''per'', ''group by'', ''count by''] text_lower then
        (if tbl = ''Repository'' then '' GROUP BY Repository.repo_id, Repository.name''
         else if tbl = ''Author'' then '' GROUP BY Author.author_id, Author.name''
         else [])
      else [])"

definition order_by_clause :: "string \<Rightarrow> string" where
  "order_by_clause text_lower =
     (if any_in [''top'', ''most'', ''highest''] text_lower then
        (if str_in ''commit'' text_lower then '' ORDER BY commit_count DESC''
         else if str_in ''stars'' text_lower then '' ORDER BY stars DESC''
         else if str_in ''forks'' text_lower then '' ORDER BY forks DESC''
         else [])
      else [])"

text \<open>Lines 354 to 395 of \<open>build_sql_query\<close>: what runs when no special case returned.\<close>

definition generic_query :: "string list \<Rightarrow> string \<Rightarrow> string" where
  "generic_query tokens text =
     (let text_lower = lower text;
          action = identify_action tokens
      in case identify_table tokens of
           None \<Rightarrow> err_no_table
         | Some tbl \<Rightarrow>
             (let cols = identify_columns tokens (Some tbl);
                  conditions = identify_conditions text
              in action @ '' '' @ join '', '' cols @ '' FROM '' @ tbl
                 @ join_clause text_lower tbl
                 @ where_clause conditions
                 @ group_by_clause text_lower tbl
                 @ order_by_clause text_lower
                 @ '';''))"

definition build_sql_query :: "nlp \<Rightarrow> string \<Rightarrow> int option \<Rightarrow> string" where
  "build_sql_query E text repo_id =
     (let tokens = preprocess_text E text in
      if tokens = [] then err_empty_input
      else
        (let t = lower text in
         if asks_bug_introducer t then sql_bug_introducer t repo_id
         else if asks_most_changed_file t then sql_most_changed_file t repo_id
         else if asks_most_added_file t then sql_most_added_file t repo_id
         else if asks_most_deleted_file t then sql_most_deleted_file t repo_id
         else if asks_top_files t then sql_top_files t repo_id
         else if asks_top_contributor t then sql_top_contributor t repo_id
         else if asks_top_contributors_by_commit t then sql_top_contributors_by_commit t repo_id
         else if asks_top_n_contributors t then sql_top_n_contributors t repo_id
         else if asks_bottom_contributors t then sql_bottom_contributors t repo_id
         else if asks_commits_last_30_days t then sql_commits_last_30_days t repo_id
         else if asks_most_active_30_days t then sql_most_active_30_days t repo_id
         else if asks_count_commits t then sql_count_commits t repo_id
         else if asks_count_contributors t then sql_count_contributors t repo_id
         else if asks_commit_most_changes t then sql_commit_most_changes t repo_id
         else if asks_top_fixer t then sql_top_fixer t repo_id
         else if asks_repository_most_changes t then sql_repository_most_changes t repo_id
         else if asks_commits_per_repository t then sql_commits_per_repository t repo_id
         else generic_query tokens text))"

text \<open>
  The template bank as the specification describes it: the ordered list of
  (predicate, SQL template) pairs, to be compared with the chain of \<open>build_sql_query\<close>.
\<close>

definition template_bank :: "((string \<Rightarrow> bool) \<times> (string \<Rightarrow> int option \<Rightarrow> string)) list" where
  "template_bank =
     [(asks_bug_introducer, sql_bug_introducer),
      (asks_most_changed_file, sql_most_changed_file),
      (asks_most_added_file, sql_most_added_file),
      (asks_most_deleted_file, sql_most_deleted_file),
      (asks_top_files, sql_top_files),
      (asks_top_contributor, sql_top_contributor),
      (asks_top_contributors_by_commit, sql_top_contributors_by_commit),
      (asks_top_n_contributors, sql_top_n_contributors),
      (asks_bottom_contributors, sql_bottom_contributors),
      (asks_commits_last_30_days, sql_commits_last_30_days),
      (asks_most_active_30_days, sql_most_active_30_days),
      (asks_count_commits, sql_count_commits),
      (asks_count_contributors, sql_count_contributors),
      (asks_commit_most_changes, sql_commit_most_changes),
      (asks_top_fixer, sql_top_fixer),
      (asks_repository_most_changes, sql_repository_most_changes),
      (asks_commits_per_repository, sql_commits_per_repository)]"

text \<open>
  A stand-in for the tokenizer on concrete inputs: it splits at blanks.  On the texts
  evaluated below (lowercase words, digits and underscores separated by single spaces)
  NLTK's \<open>word_tokenize\<close> returns the same tokens.  \<open>stop_words_used\<close> holds the members
  of NLTK's English stop-word list that occur in those texts.
\<close>

fun split_blanks :: "string \<Rightarrow> string \<Rightarrow> string list" where
  "split_blanks acc [] = (if acc = [] then [] else [acc])"
| "split_blanks acc (c # cs) =
     (if is_space c then (if acc = [] then [] else [acc]) @ split_blanks [] cs
      else split_blanks (acc @ [c]) cs)"

definition stop_words_used :: "string list" where
  "stop_words_used = [''how'', ''with'', ''more'', ''than'', ''most'', ''and'', ''the'', ''which'', ''by'', ''from'']"

definition simple_nlp :: nlp where
  "simple_nlp = \<lparr>word_tokenize = (\<lambda>s. Some (split_blanks [] s)), stop_words = set stop_words_used\<rparr>"

text \<open>Some special case fires on the lowercased text.\<close>

definition template_matches :: "string \<Rightarrow> bool" where
  "template_matches t = list_ex (\<lambda>(p, r). p t) template_bank"

text \<open>The shape of every statement the compiler returns: it starts with \<open>SELECT\<close> and ends with a semicolon.\<close>

definition is_select_statement :: "string \<Rightarrow> bool" where
  "is_select_statement s = (prefix ''SELECT '' s \<and> last s = CHR '';'')"

text \<open>A tokenizer whose data is missing: every call raises.\<close>

definition failing_nlp :: nlp where
  "failing_nlp = \<lparr>word_tokenize = (\<lambda>s. None), stop_words = {}\<rparr>"

text \<open>The templates whose renderer reads \<open>repo_id\<close>.\<close>

definition repo_scoped_templates :: "((string \<Rightarrow> bool) \<times> (string \<Rightarrow> int option \<Rightarrow> string)) list" where
  "repo_scoped_templates =
     [(asks_bug_introducer, sql_bug_introducer),
      (asks_most_changed_file, sql_most_changed_file),
      (asks_most_added_file, sql_most_added_file),
      (asks_most_deleted_file, sql_most_deleted_file),
      (asks_top_files, sql_top_files),
      (asks_top_contributor, sql_top_contributor),
      (asks_bottom_contributors, sql_bottom_contributors),
      (asks_count_commits, sql_count_commits),
      (asks_count_contributors, sql_count_contributors),
      (asks_commit_most_changes, sql_commit_most_changes),
      (asks_top_fixer, sql_top_fixer)]"

section \<open>Exceptions and the handlers\<close>

text \<open>
  Every method of the analyzer runs its body inside \<open>try: ... except Exception\<close>, and
  the handler returns a fixed value.  A run of a body returns a value or raises; the
  handler does not look at what was raised or where, so a run that raises is the single
  outcome \<open>Raised\<close>.  \<open>faults\<close> says in which bodies of one compile an unexpected
  exception is raised (whatever its cause: memory, an integer too long to print, a
  broken installation); the tokenizer's own failure is \<open>word_tokenize\<close> returning
  \<open>None\<close>, as before.
\<close>

datatype 'a outcome = Returned 'a | Raised

definition try_except :: "'a outcome \<Rightarrow> 'a \<Rightarrow> 'a outcome" where
  "try_except body handler_value =
     (case body of Returned v \<Rightarrow> Returned v | Raised \<Rightarrow> Returned handler_value)"

definition and_then :: "'a outcome \<Rightarrow> ('a \<Rightarrow> 'b outcome) \<Rightarrow> 'b outcome" where
  "and_then m f = (case m of Returned v \<Rightarrow> f v | Raised \<Rightarrow> Raised)"

record faults =
  in_identify_action :: bool
  in_identify_table :: bool
  in_identify_columns :: bool
  in_identify_conditions :: bool
  in_build_sql_query :: bool

definition no_faults :: faults where
  "no_faults = \<lparr>in_identify_action = False, in_identify_table = False, in_identify_columns = False,
                 in_identify_conditions = False, in_build_sql_query = False\<rparr>"

text \<open>The run of a body that computes \<open>v\<close> when nothing is raised in it.\<close>

definition body_of :: "bool \<Rightarrow> 'a \<Rightarrow> 'a outcome" where
  "body_of raises v = (if raises then Raised else Returned v)"

text \<open>The five matchers with their handlers (lines 96-98, 113-115, 129-131, 168-170, 209-211).\<close>

definition preprocess_text_try :: "nlp \<Rightarrow> string \<Rightarrow> string list outcome" where
  "preprocess_text_try E text =
     try_except
       (case word_tokenize E (lower text) of
          None \<Rightarrow> Raised
        | Some tokens \<Rightarrow> Returned (filter (\<lambda>word. isalnum word \<and> word \<notin> stop_words E) tokens))
       []"

definition identify_action_try :: "faults \<Rightarrow> string list \<Rightarrow> string outcome" where
  "identify_action_try F tokens =
     try_except (body_of (in_identify_action F) (identify_action tokens)) ''SELECT''"

definition identify_table_try :: "faults \<Rightarrow> string list \<Rightarrow> string option outcome" where
  "identify_table_try F words =
     try_except (body_of (in_identify_table F) (identify_table words)) None"

definition identify_columns_try :: "faults \<Rightarrow> string list \<Rightarrow> string option \<Rightarrow> string list outcome" where
  "identify_columns_try F words tbl =
     try_except (body_of (in_identify_columns F) (identify_columns words tbl)) [''*'']"

definition identify_conditions_try :: "faults \<Rightarrow> string \<Rightarrow> string list outcome" where
  "identify_conditions_try F text =
     try_except (body_of (in_identify_conditions F) (identify_conditions text)) []"

text \<open>
  The body of \<open>build_sql_query\<close> (lines 216 to 395), calling the matchers through their
  handlers, and the function with its own handler (lines 397-399).
\<close>

definition generic_body :: "faults \<Rightarrow> string list \<Rightarrow> string \<Rightarrow> string outcome" where
  "generic_body F tokens text =
     and_then (identify_action_try F tokens) (\<lambda>action.
     and_then (identify_table_try F tokens) (\<lambda>found.
       case found of
         None \<Rightarrow> Returned err_no_table
       | Some tbl \<Rightarrow>
           and_then (identify_columns_try F tokens (Some tbl)) (\<lambda>cols.
           and_then (identify_conditions_try F text) (\<lambda>conditions.
             Returned (action @ '' '' @ join '', '' cols @ '' FROM '' @ tbl
                       @ join_clause (lower text) tbl
                       @ where_clause conditions
                       @ group_by_clause (lower text) tbl
                       @ order_by_clause (lower text)
                       @ '';'')))))"

definition build_body :: "faults \<Rightarrow> nlp \<Rightarrow> string \<Rightarrow> int option \<Rightarrow> string outcome" where
  "build_body F E text repo_id =
     and_then (body_of (in_build_sql_query F) ()) (\<lambda>_.
     and_then (preprocess_text_try E text) (\<lambda>tokens.
       if tokens = [] then Returned err_empty_input
       else
         (let t = lower text in
          if asks_bug_introducer t then Returned (sql_bug_introducer t repo_id)
          else if asks_most_changed_file t then Returned (sql_most_changed_file t repo_id)
          else if asks_most_added_file t then Returned (sql_most_added_file t repo_id)
          else if asks_most_deleted_file t then Returned (sql_most_deleted_file t repo_id)
          else if asks_top_files t then Returned (sql_top_files t repo_id)
          else if asks_top_contributor t then Returned (sql_top_contributor t repo_id)
          else if asks_top_contributors_by_commit t then Returned (sql_top_contributors_by_commit t repo_id)
          else if asks_top_n_contributors t then Returned (sql_top_n_contributors t repo_id)
          else if asks_bottom_contributors t then Returned (sql_bottom_contributors t repo_id)
          else if asks_commits_last_30_days t then Returned (sql_commits_last_30_days t repo_id)
          else if asks_most_active_30_days t then Returned (sql_most_active_30_days t repo_id)
          else if asks_count_commits t then Returned (sql_count_commits t repo_id)
          else if asks_count_contributors t then Returned (sql_count_contributors t repo_id)
          else if asks_commit_most_changes t then Returned (sql_commit_most_changes t repo_id)
          else if asks_top_fixer t then Returned (sql_top_fixer t repo_id)
          else if asks_repository_most_changes t then Returned (sql_repository_most_changes t repo_id)
          else if asks_commits_per_repository t then Returned (sql_commits_per_repository t repo_id)
          else generic_body F tokens text)))"

definition build_sql_query_try :: "faults \<Rightarrow> nlp \<Rightarrow> string \<Rightarrow> int option \<Rightarrow> string outcome" where
  "build_sql_query_try F E text repo_id = try_except (build_body F E text repo_id) err_internal"

text \<open>
  What the generic path assembles when the handlers have replaced the result of each
  matcher that raised by its default.
\<close>

definition generic_with_defaults :: "faults \<Rightarrow> string list \<Rightarrow> string \<Rightarrow> string" where
  "generic_with_defaults F tokens text =
     (case (if in_identify_table F then None else identify_table tokens) of
        None \<Rightarrow> err_no_table
      | Some tbl \<Rightarrow>
          (if in_identify_action F then ''SELECT'' else identify_action tokens) @ '' ''
          @ join '', '' (if in_identify_columns F then [''*''] else identify_columns tokens (Some tbl))
          @ '' FROM '' @ tbl
          @ join_clause (lower text) tbl
          @ where_clause (if in_identify_conditions F then [] else identify_conditions text)
          @ group_by_clause (lower text) tbl
          @ order_by_clause (lower text)
          @ '';'')"

text \<open>Two fault patterns: every matcher but \<open>identify_table\<close> raises; the body of \<open>build_sql_query\<close> raises.\<close>

definition matcher_faults :: faults where
  "matcher_faults = \<lparr>in_identify_action = True, in_identify_table = False, in_identify_columns = True,
                      in_identify_conditions = True, in_build_sql_query = False\<rparr>"

definition build_fault :: faults where
  "build_fault = \<lparr>in_identify_action = False, in_identify_table = False, in_identify_columns = False,
                   in_identify_conditions = False, in_build_sql_query = True\<rparr>"

section \<open>Facts about the primitives\<close>

lemma str_in_sublist: "str_in sub s = sublist sub s"
  by (induction s) (simp_all add: sublist_Cons_right)

lemma str_in_set: "str_in sub s \<Longrightarrow> set sub \<subseteq> set s"
  by (simp add: str_in_sublist set_mono_sublist)

lemma str_in_appR: "str_in w s \<Longrightarrow> str_in w (a @ s)"
  unfolding str_in_sublist sublist_def by (metis append.assoc)

lemma str_in_appL: "str_in w s \<Longrightarrow> str_in w (s @ b)"
  unfolding str_in_sublist sublist_def by (metis append.assoc)

lemma str_in_head: "str_in w (w @ b)"
  unfolding str_in_sublist sublist_def by (metis append_Nil)

lemma str_in_head2: "str_in (w @ n) (w @ n @ b)"
  unfolding str_in_sublist sublist_def by (metis append_Nil append.assoc)

lemma digit_not_W: "is_digit c \<Longrightarrow> c \<noteq> CHR ''W''"
  by (auto simp: is_digit_def cp_def)

lemma digit_not_G: "is_digit c \<Longrightarrow> c \<noteq> CHR ''G''"
  by (auto simp: is_digit_def cp_def)

lemma match_rank_at_digits: "match_rank_at kw s = Some ds \<Longrightarrow> ds \<noteq> [] \<and> (\<forall>c\<in>set ds. is_digit c)"
  by (auto simp: match_rank_at_def Let_def split: if_splits dest: set_takeWhileD)

lemma search_rank_from_digits:
  "search_rank_from kw b s = Some ds \<Longrightarrow> ds \<noteq> [] \<and> (\<forall>c\<in>set ds. is_digit c)"
proof (induction kw b s rule: search_rank_from.induct)
  case (1 kw prev_word)
  then show ?case by simp
next
  case (2 kw prev_word c cs)
  show ?case
  proof (cases "if prev_word then None else match_rank_at kw (c # cs)")
    case None
    with 2 show ?thesis by simp
  next
    case (Some d)
    with 2 have "d = ds" by simp
    moreover from Some have "match_rank_at kw (c # cs) = Some d" by (simp split: if_splits)
    ultimately show ?thesis using match_rank_at_digits by blast
  qed
qed

lemma search_rank_digits: "search_rank kw s = Some ds \<Longrightarrow> ds \<noteq> [] \<and> (\<forall>c\<in>set ds. is_digit c)"
  unfolding search_rank_def by (rule search_rank_from_digits)

lemma match_count_at_digits: "match_count_at kw s = Some ds \<Longrightarrow> ds \<noteq> [] \<and> (\<forall>c\<in>set ds. is_digit c)"
  by (auto simp: match_count_at_def Let_def split: if_splits dest: set_takeWhileD)

lemma search_count_digits: "search_count kw s = Some ds \<Longrightarrow> ds \<noteq> [] \<and> (\<forall>c\<in>set ds. is_digit c)"
  by (induction kw s rule: search_count.induct) (auto split: option.splits dest: match_count_at_digits)

lemma match_count_at_in: "match_count_at kw s = Some ds \<Longrightarrow> str_in kw s"
proof -
  assume "match_count_at kw s = Some ds"
  then have p: "prefix kw (dropWhile is_space (dropWhile is_digit s))"
    by (auto simp: match_count_at_def Let_def split: if_splits)
  then obtain r where "dropWhile is_space (dropWhile is_digit s) = kw @ r"
    by (auto simp: prefix_def)
  then have "s = (takeWhile is_digit s @ takeWhile is_space (dropWhile is_digit s)) @ kw @ r"
    by (metis append.assoc takeWhile_dropWhile_id)
  then show ?thesis unfolding str_in_sublist sublist_def by blast
qed

lemma search_count_in: "search_count kw s = Some ds \<Longrightarrow> str_in kw s"
  by (induction kw s rule: search_count.induct) (auto split: option.splits dest: match_count_at_in)

lemma build_unfold:
  "build_sql_query E text repo_id =
     (if preprocess_text E text = [] then err_empty_input
      else case find (\<lambda>(p, r). p (lower text)) template_bank of
             Some (p, r) \<Rightarrow> r (lower text) repo_id
           | None \<Rightarrow> generic_query (preprocess_text E text) text)"
  by (simp add: build_sql_query_def template_bank_def Let_def)

lemma find_bank_none: "find (\<lambda>(p, r). p t) template_bank = None \<longleftrightarrow> \<not> template_matches t"
  by (auto simp add: find_None_iff template_matches_def list_ex_iff)

lemma build_template:
  "preprocess_text E text \<noteq> [] \<Longrightarrow> find (\<lambda>(p, r). p (lower text)) template_bank = Some (p, r)
   \<Longrightarrow> build_sql_query E text repo_id = r (lower text) repo_id"
  by (simp add: build_unfold)

lemma build_generic:
  "preprocess_text E text \<noteq> [] \<Longrightarrow> \<not> template_matches (lower text)
   \<Longrightarrow> build_sql_query E text repo_id = generic_query (preprocess_text E text) text"
  by (simp add: build_unfold find_bank_none [symmetric])

lemma build_empty:
  "preprocess_text E text = [] \<Longrightarrow> build_sql_query E text repo_id = err_empty_input"
  by (simp add: build_unfold)

lemma first_keyword_count:
  "first_keyword tokens = Some ''SELECT COUNT(*)'' \<Longrightarrow> ''count'' \<in> set tokens"
proof (induction tokens)
  case Nil
  then show ?case by simp
next
  case (Cons t ts)
  show ?case
  proof (cases "map_of keywords_tbl t")
    case None
    with Cons show ?thesis by simp
  next
    case (Some a)
    with Cons.prems have "(t, ''SELECT COUNT(*)'') \<in> set keywords_tbl"
      by (auto dest: map_of_SomeD)
    then have "t = ''count''"
      by (simp add: keywords_tbl_def)
    then show ?thesis by simp
  qed
qed

lemma first_entity_first:
  "i < length es \<Longrightarrow> mentions words (snd (es ! i))
   \<Longrightarrow> \<forall>e\<in>set (take i es). \<not> mentions words (snd e)
   \<Longrightarrow> first_entity es words = Some (table (snd (es ! i)))"
proof (induction es arbitrary: i)
  case Nil
  then show ?case by simp
next
  case (Cons e es)
  obtain name info where e: "e = (name, info)" by (cases e)
  show ?case
  proof (cases i)
    case 0
    with Cons.prems e show ?thesis by simp
  next
    case (Suc k)
    with Cons.prems e have "\<not> mentions words info" by simp
    moreover from Suc Cons.prems have "first_entity es words = Some (table (snd (es ! k)))"
      by (intro Cons.IH) simp_all
    ultimately show ?thesis using Suc e by simp
  qed
qed

lemma entity_tables_distinct: "distinct (map (\<lambda>e. table (snd e)) entity_mapping)"
  by (simp add: entity_mapping_def)

lemma count_condition_eq:
  "count_condition m t =
     (case search_count m t of Some num \<Rightarrow> [m @ '' '' @ comparison t @ '' '' @ num] | None \<Rightarrow> [])"
  by (auto simp: count_condition_def dest: search_count_in split: option.splits)

lemma stars_filter:
  "filter (prefix ''stars '') (count_condition ''stars'' t) = count_condition ''stars'' t"
  "filter (prefix ''stars '') (count_condition ''forks'' t) = []"
  "filter (prefix ''stars '') (time_condition t) = []"
    apply (cases "search_count ''stars'' t"; simp add: count_condition_eq)
   apply (cases "search_count ''forks'' t"; simp add: count_condition_eq)
  apply (simp add: time_condition_def this_month_condition_def last_month_condition_def)
  done

lemma forks_filter:
  "filter (prefix ''forks '') (count_condition ''forks'' t) = count_condition ''forks'' t"
  "filter (prefix ''forks '') (count_condition ''stars'' t) = []"
  "filter (prefix ''forks '') (time_condition t) = []"
    apply (cases "search_count ''forks'' t"; simp add: count_condition_eq)
   apply (cases "search_count ''stars'' t"; simp add: count_condition_eq)
  apply (simp add: time_condition_def this_month_condition_def last_month_condition_def)
  done

lemma first_keyword_cases:
  "first_keyword tokens = Some a \<Longrightarrow> a = ''SELECT'' \<or> a = ''SELECT COUNT(*)''"
proof (induction tokens)
  case Nil
  then show ?case by simp
next
  case (Cons t ts)
  show ?case
  proof (cases "map_of keywords_tbl t")
    case None
    with Cons show ?thesis by simp
  next
    case (Some b)
    with Cons.prems have "(t, a) \<in> set keywords_tbl"
      by (auto dest: map_of_SomeD)
    then show ?thesis
      by (auto simp add: keywords_tbl_def)
  qed
qed

lemma identify_action_cases:
  "identify_action tokens = ''SELECT'' \<or> identify_action tokens = ''SELECT COUNT(*)''"
  by (cases "first_keyword tokens") (auto simp: identify_action_def dest: first_keyword_cases)

lemma identify_table_cases:
  "identify_table tokens = Some tbl \<Longrightarrow>
     tbl \<in> {''repositories'', ''authors'', ''commits'', ''files'', ''diffs''}"
  by (simp add: identify_table_def entity_mapping_def split: if_splits)

lemma join_notin:
  "c \<notin> set sep \<Longrightarrow> \<forall>x\<in>set xs. c \<notin> set x \<Longrightarrow> c \<notin> set (join sep xs)"
  by (induction sep xs rule: join.induct) simp_all

lemma find_entity_table:
  assumes "tbl \<in> {''repositories'', ''authors'', ''commits'', ''files'', ''diffs''}"
  shows "\<exists>e info. find (\<lambda>(entity, info). Some (table info) = Some tbl) entity_mapping = Some (e, info)
           \<and> (\<forall>col\<in>set (columns info). CHR ''G'' \<notin> set col)"
  using assms by (auto simp add: entity_mapping_def)

lemma identify_columns_noG:
  assumes "tbl \<in> {''repositories'', ''authors'', ''commits'', ''files'', ''diffs''}"
    and "col \<in> set (identify_columns tokens (Some tbl))"
  shows "CHR ''G'' \<notin> set col"
proof (cases "list_ex (\<lambda>word. word \<in> set [''count'', ''how many'', ''total'']) tokens")
  case True
  with assms(2) show ?thesis by (simp add: identify_columns_def)
next
  case False
  from find_entity_table [OF assms(1)] obtain e info where
    f: "find (\<lambda>(entity, info). Some (table info) = Some tbl) entity_mapping = Some (e, info)"
    and g: "\<forall>col\<in>set (columns info). CHR ''G'' \<notin> set col" by blast
  show ?thesis
  proof (cases "filter (\<lambda>col. last_segment col \<in> set tokens) (columns info) = []")
    case True
    with assms(2) False f show ?thesis
      by (auto simp add: identify_columns_def Let_def split: if_splits)
  next
    case nonempty: False
    with assms(2) False f have "col \<in> set (columns info)"
      by (auto simp add: identify_columns_def Let_def)
    with g show ?thesis by blast
  qed
qed

lemma comparison_noG: "CHR ''G'' \<notin> set (comparison t)"
  by (simp add: comparison_def)

lemma count_condition_noG:
  assumes "c \<in> set (count_condition m t)" and "CHR ''G'' \<notin> set m"
  shows "CHR ''G'' \<notin> set c"
proof (cases "search_count m t")
  case None
  with assms show ?thesis by (simp add: count_condition_eq)
next
  case (Some num)
  then have "\<forall>d\<in>set num. is_digit d" by (auto dest: search_count_digits)
  then have "CHR ''G'' \<notin> set num" by (auto dest: digit_not_G)
  with assms Some show ?thesis by (simp add: count_condition_eq comparison_noG)
qed

lemma time_condition_noG: "c \<in> set (time_condition t) \<Longrightarrow> CHR ''G'' \<notin> set c"
  by (auto simp add: time_condition_def this_month_condition_def last_month_condition_def split: if_splits)

lemma identify_conditions_noG: "c \<in> set (identify_conditions text) \<Longrightarrow> CHR ''G'' \<notin> set c"
  using count_condition_noG [of c "''stars''" "lower text"] count_condition_noG [of c "''forks''" "lower text"]
    time_condition_noG [of c "lower text"]
  by (auto simp add: identify_conditions_def Let_def)

lemma where_clause_noG: "CHR ''G'' \<notin> set (where_clause (identify_conditions text))"
proof -
  have "CHR ''G'' \<notin> set (join '' AND '' (identify_conditions text))"
    by (rule join_notin) (auto dest: identify_conditions_noG)
  then show ?thesis by (simp add: where_clause_def)
qed

lemma group_by_clause_dead:
  "tbl \<in> {''repositories'', ''authors'', ''commits'', ''files'', ''diffs''} \<Longrightarrow> group_by_clause t tbl = []"
  by (auto simp add: group_by_clause_def)

lemma generic_query_noG: "CHR ''G'' \<notin> set (generic_query tokens text)"
proof (cases "identify_table tokens")
  case None
  then show ?thesis by (simp add: generic_query_def err_no_table_def)
next
  case (Some tbl)
  then have t: "tbl \<in> {''repositories'', ''authors'', ''commits'', ''files'', ''diffs''}"
    by (rule identify_table_cases)
  have a: "CHR ''G'' \<notin> set (identify_action tokens)"
    using identify_action_cases [of tokens] by auto
  have c: "CHR ''G'' \<notin> set (join '', '' (identify_columns tokens (Some tbl)))"
    by (rule join_notin) (auto dest: identify_columns_noG [OF t])
  have tb: "CHR ''G'' \<notin> set tbl" using t by auto
  have j: "CHR ''G'' \<notin> set (join_clause (lower text) tbl)"
    by (simp add: join_clause_def)
  have ob: "CHR ''G'' \<notin> set (order_by_clause (lower text))"
    by (simp add: order_by_clause_def)
  show ?thesis
    using Some a c tb j ob where_clause_noG [of "text"] group_by_clause_dead [OF t, of "lower text"]
    by (simp add: generic_query_def Let_def)
qed

lemma find_first_index:
  "find P xs = Some x \<Longrightarrow> \<exists>i<length xs. xs ! i = x \<and> P x \<and> (\<forall>j<i. \<not> P (xs ! j))"
  unfolding find_Some_iff by blast

lemma find_Some_member: "find P xs = Some x \<Longrightarrow> x \<in> set xs \<and> P x"
  by (induction xs) (auto split: if_splits)

lemma select_parts:
  "prefix ''SELECT '' a \<Longrightarrow> b \<noteq> [] \<Longrightarrow> last b = CHR '';'' \<Longrightarrow> is_select_statement (a @ m @ b)"
  by (simp add: is_select_statement_def)

lemma select_limit:
  "prefix ''SELECT '' a \<Longrightarrow> is_select_statement (a @ m @ g @ n @ '';'')"
  "prefix ''SELECT '' a \<Longrightarrow> is_select_statement (a @ n @ '';'')"
  by (simp_all add: is_select_statement_def)

lemma select_bug_introducer: "is_select_statement (sql_bug_introducer t rid)"
proof (cases rid)
  case None
  then show ?thesis by (simp only: sql_bug_introducer_def option.case) code_simp
next
  case (Some r)
  have "is_select_statement ((''SELECT authors.name, COUNT(bugs.bug_id) AS bugs_introduced '' @
          ''FROM bugs '' @
          ''JOIN commits ON bugs.introduced_commit = commits.commit_id '' @
          ''JOIN authors ON commits.author_id = authors.author_id '' @
          ''WHERE commits.repo_id = '') @ str_int r @ ('' '' @
          ''GROUP BY authors.author_id, authors.name '' @
          ''ORDER BY bugs_introduced DESC '' @
          ''LIMIT 1;''))"
    by (rule select_parts; code_simp)
  then show ?thesis using Some by (simp only: sql_bug_introducer_def option.case append_assoc)
qed

lemma select_count_contributors: "is_select_statement (sql_count_contributors t rid)"
proof (cases rid)
  case None
  then show ?thesis by (simp only: sql_count_contributors_def option.case) code_simp
next
  case (Some r)
  then show ?thesis
    by (simp only: sql_count_contributors_def option.case) (rule select_limit(2), code_simp)
qed

lemma select_where_templates:
  "is_select_statement (sql_most_changed_file t rid)"
  "is_select_statement (sql_most_added_file t rid)"
  "is_select_statement (sql_most_deleted_file t rid)"
  "is_select_statement (sql_top_contributor t rid)"
  "is_select_statement (sql_commit_most_changes t rid)"
  "is_select_statement (sql_top_fixer t rid)"
  "is_select_statement (sql_count_commits t rid)"
  unfolding sql_most_changed_file_def sql_most_added_file_def sql_most_deleted_file_def
    sql_top_contributor_def sql_commit_most_changes_def sql_top_fixer_def sql_count_commits_def
  by (rule select_parts; code_simp)+

lemma select_literal_templates:
  "is_select_statement (sql_top_contributors_by_commit t rid)"
  "is_select_statement (sql_commits_last_30_days t rid)"
  "is_select_statement (sql_most_active_30_days t rid)"
  "is_select_statement (sql_repository_most_changes t rid)"
  "is_select_statement (sql_commits_per_repository t rid)"
  by code_simp+

lemma select_bottom_contributors: "is_select_statement (sql_bottom_contributors t rid)"
  unfolding sql_bottom_contributors_def Let_def
  by (rule select_limit(1), code_simp)

lemma select_rank_templates:
  "search_rank ''top'' t \<noteq> None \<Longrightarrow> is_select_statement (sql_top_files t rid)"
  "search_rank ''top'' t \<noteq> None \<Longrightarrow> is_select_statement (sql_top_n_contributors t rid)"
proof -
  assume "search_rank ''top'' t \<noteq> None"
  then obtain n where n: "search_rank ''top'' t = Some n" by blast
  show "is_select_statement (sql_top_files t rid)"
    unfolding sql_top_files_def n option.case by (rule select_limit(1), code_simp)
  show "is_select_statement (sql_top_n_contributors t rid)"
    unfolding sql_top_n_contributors_def n option.case by (rule select_limit(2), code_simp)
qed

lemmas sql_select = select_bug_introducer select_count_contributors select_where_templates
  select_literal_templates select_bottom_contributors

lemma template_select:
  "(p, r) \<in> set template_bank \<Longrightarrow> p t \<Longrightarrow> is_select_statement (r t rid)"
  unfolding template_bank_def
  by (auto simp add: sql_select select_rank_templates asks_top_files_def asks_top_n_contributors_def)

lemma generic_select:
  "generic_query tokens text = err_no_table \<or> is_select_statement (generic_query tokens text)"
proof (cases "identify_table tokens")
  case None
  then show ?thesis by (simp add: generic_query_def)
next
  case (Some tbl)
  with identify_action_cases [of tokens] show ?thesis
    by (auto simp add: generic_query_def Let_def is_select_statement_def)
qed

lemma build_outcomes:
  "build_sql_query E text repo_id = err_empty_input
   \<or> build_sql_query E text repo_id = err_no_table
   \<or> is_select_statement (build_sql_query E text repo_id)"
proof (cases "preprocess_text E text = []")
  case True
  then show ?thesis by (simp add: build_empty)
next
  case False
  show ?thesis
  proof (cases "find (\<lambda>(p, r). p (lower text)) template_bank")
    case None
    then have "\<not> template_matches (lower text)" by (simp add: find_bank_none)
    with False have "build_sql_query E text repo_id = generic_query (preprocess_text E text) text"
      by (rule build_generic)
    with generic_select [of "preprocess_text E text" "text"] show ?thesis by simp
  next
    case (Some pr)
    obtain p r where pr: "pr = (p, r)" by (cases pr)
    from Some pr have "(p, r) \<in> set template_bank \<and> p (lower text)"
      by (auto dest: find_Some_member)
    then have "is_select_statement (r (lower text) repo_id)"
      by (auto intro: template_select)
    moreover have "build_sql_query E text repo_id = r (lower text) repo_id"
      using False Some pr by (simp add: build_template)
    ultimately show ?thesis by simp
  qed
qed

lemma errors_not_select:
  "\<not> is_select_statement err_empty_input" "\<not> is_select_statement err_no_table"
  "\<not> is_select_statement err_internal" "err_empty_input \<noteq> err_no_table"
  "err_empty_input \<noteq> err_internal" "err_no_table \<noteq> err_internal"
  by (simp_all add: is_select_statement_def err_empty_input_def err_no_table_def err_internal_def)

lemma space_not_alnum: "is_space c \<Longrightarrow> \<not> is_alnum_char c"
  by (auto simp add: is_space_def is_alnum_char_def)

lemma lower_space: "is_space c \<Longrightarrow> lower_char c = c"
  by (auto simp add: is_space_def lower_char_def)

lemma blank_text_tokens:
  assumes "\<forall>c\<in>set text. is_space c"
    and "\<forall>toks. word_tokenize E (lower text) = Some toks \<longrightarrow> (\<forall>w\<in>set toks. set w \<subseteq> set (lower text))"
  shows "preprocess_text E text = []"
proof (cases "word_tokenize E (lower text)")
  case None
  then show ?thesis by (simp add: preprocess_text_def)
next
  case (Some toks)
  have l: "lower text = text"
    unfolding lower_def using assms(1) by (simp add: map_idI lower_space)
  have "\<not> isalnum w" if "w \<in> set toks" for w
  proof (cases w)
    case Nil
    then show ?thesis by (simp add: isalnum_def)
  next
    case (Cons c cs)
    from that Some assms(2) have "set w \<subseteq> set (lower text)" by blast
    with Cons l assms(1) have "is_space c" by auto
    then show ?thesis using Cons by (simp add: isalnum_def space_not_alnum)
  qed
  then have "filter (\<lambda>word. isalnum word \<and> word \<notin> stop_words E) toks = []"
    by (simp add: filter_empty_conv)
  with Some show ?thesis by (simp add: preprocess_text_def)
qed

lemma where_spliced:
  "str_in (''WHERE commits.repo_id = '' @ str_int r) (a @ where_commits_repo (Some r) @ b)"
  unfolding str_in_sublist sublist_def where_commits_repo_def option.case
  by (rule exI [of _ a], rule exI [of _ "'' '' @ b"]) simp

lemma where_templates:
  "str_in (''WHERE commits.repo_id = '' @ str_int r) (sql_most_changed_file t (Some r))"
  "str_in (''WHERE commits.repo_id = '' @ str_int r) (sql_most_added_file t (Some r))"
  "str_in (''WHERE commits.repo_id = '' @ str_int r) (sql_most_deleted_file t (Some r))"
  "str_in (''WHERE commits.repo_id = '' @ str_int r) (sql_top_contributor t (Some r))"
  "str_in (''WHERE commits.repo_id = '' @ str_int r) (sql_bottom_contributors t (Some r))"
  "str_in (''WHERE commits.repo_id = '' @ str_int r) (sql_commit_most_changes t (Some r))"
  "str_in (''WHERE commits.repo_id = '' @ str_int r) (sql_top_fixer t (Some r))"
  unfolding sql_most_changed_file_def sql_most_added_file_def sql_most_deleted_file_def
    sql_top_contributor_def sql_bottom_contributors_def sql_commit_most_changes_def
    sql_top_fixer_def Let_def
  by (rule where_spliced)+

lemma where_top_files:
  assumes "search_rank ''top'' t \<noteq> None"
  shows "str_in (''WHERE commits.repo_id = '' @ str_int r) (sql_top_files t (Some r))"
proof -
  from assms obtain n where n: "search_rank ''top'' t = Some n" by blast
  show ?thesis unfolding sql_top_files_def n option.case by (rule where_spliced)
qed

lemma where_bug_introducer:
  "str_in (''WHERE commits.repo_id = '' @ str_int r) (sql_bug_introducer t (Some r))"
  unfolding sql_bug_introducer_def option.case
  by (rule str_in_appR, rule str_in_appR, rule str_in_appR, rule str_in_appR, rule str_in_head2)

lemma where_count_contributors:
  "str_in (''WHERE commits.repo_id = '' @ str_int r) (sql_count_contributors t (Some r))"
proof -
  have "sql_count_contributors t (Some r) =
      ''SELECT COUNT(DISTINCT commits.author_id) AS contributors FROM commits '' @
      (''WHERE commits.repo_id = '' @ str_int r) @ '';''"
    by (simp add: sql_count_contributors_def)
  then show ?thesis
    by (simp only: str_in_sublist sublist_appendI)
qed

lemma where_count_commits:
  "str_in (''WHERE repo_id = '' @ str_int r) (sql_count_commits t (Some r))"
  unfolding sql_count_commits_def option.case str_in_sublist sublist_def
  by (rule exI [of _ "''SELECT COUNT(*) AS total_commits FROM commits ''"], rule exI [of _ "'' ;''"]) simp

lemma no_where_fixed:
  "CHR ''W'' \<notin> set (sql_bug_introducer t None)"
  "CHR ''W'' \<notin> set (sql_most_changed_file t None)"
  "CHR ''W'' \<notin> set (sql_most_added_file t None)"
  "CHR ''W'' \<notin> set (sql_most_deleted_file t None)"
  "CHR ''W'' \<notin> set (sql_top_contributor t None)"
  "CHR ''W'' \<notin> set (sql_count_commits t None)"
  "CHR ''W'' \<notin> set (sql_count_contributors t None)"
  "CHR ''W'' \<notin> set (sql_commit_most_changes t None)"
  "CHR ''W'' \<notin> set (sql_top_fixer t None)"
  by code_simp+

lemma rank_no_W: "search_rank kw t = Some n \<Longrightarrow> CHR ''W'' \<notin> set n"
  by (auto dest!: search_rank_digits digit_not_W)

lemma no_where_top_files:
  "search_rank ''top'' t \<noteq> None \<Longrightarrow> CHR ''W'' \<notin> set (sql_top_files t None)"
  by (auto simp add: sql_top_files_def where_commits_repo_def dest: rank_no_W)

lemma no_where_bottom: "CHR ''W'' \<notin> set (sql_bottom_contributors t None)"
  by (cases "search_rank ''bottom'' t")
     (auto simp add: sql_bottom_contributors_def where_commits_repo_def dest: rank_no_W)

lemma no_W_no_where: "CHR ''W'' \<notin> set s \<Longrightarrow> \<not> str_in ''WHERE'' s"
  by (auto dest: str_in_set)

lemma scoped_cases:
  assumes "(p, r) \<in> set repo_scoped_templates"
  obtains "r = sql_bug_introducer" | "r = sql_most_changed_file" | "r = sql_most_added_file"
    | "r = sql_most_deleted_file" | "p = asks_top_files" and "r = sql_top_files"
    | "r = sql_top_contributor" | "r = sql_bottom_contributors" | "r = sql_count_commits"
    | "r = sql_count_contributors" | "r = sql_commit_most_changes" | "r = sql_top_fixer"
  using assms unfolding repo_scoped_templates_def
  by (simp only: list.set insert_iff empty_iff prod.inject) blast

lemma scoped_template_where:
  assumes "(p, r) \<in> set repo_scoped_templates" and "p t"
  shows "(str_in (''WHERE commits.repo_id = '' @ str_int rid) (r t (Some rid))
          \<or> str_in (''WHERE repo_id = '' @ str_int rid) (r t (Some rid)))
       \<and> \<not> str_in ''WHERE'' (r t None)"
proof (cases rule: scoped_cases [OF assms(1)])
  case 1
  then show ?thesis by (simp only:) (intro conjI disjI1 where_bug_introducer no_W_no_where no_where_fixed)
next
  case 2
  then show ?thesis by (simp only:) (intro conjI disjI1 where_templates no_W_no_where no_where_fixed)
next
  case 3
  then show ?thesis by (simp only:) (intro conjI disjI1 where_templates no_W_no_where no_where_fixed)
next
  case 4
  then show ?thesis by (simp only:) (intro conjI disjI1 where_templates no_W_no_where no_where_fixed)
next
  case 5
  with assms(2) have "search_rank ''top'' t \<noteq> None" by (simp add: asks_top_files_def)
  with 5 show ?thesis by (simp only:) (intro conjI disjI1 where_top_files no_W_no_where no_where_top_files)
next
  case 6
  then show ?thesis by (simp only:) (intro conjI disjI1 where_templates no_W_no_where no_where_fixed)
next
  case 7
  then show ?thesis by (simp only:) (intro conjI disjI1 where_templates no_W_no_where no_where_bottom)
next
  case 8
  then show ?thesis by (simp only:) (intro conjI disjI2 where_count_commits no_W_no_where no_where_fixed)
next
  case 9
  then show ?thesis by (simp only:) (intro conjI disjI1 where_count_contributors no_W_no_where no_where_fixed)
next
  case 10
  then show ?thesis by (simp only:) (intro conjI disjI1 where_templates no_W_no_where no_where_fixed)
next
  case 11
  then show ?thesis by (simp only:) (intro conjI disjI1 where_templates no_W_no_where no_where_fixed)
qed

lemma preprocess_text_try_eq: "preprocess_text_try E text = Returned (preprocess_text E text)"
  by (simp add: preprocess_text_try_def preprocess_text_def try_except_def split: option.splits)

lemma matchers_try:
  "identify_action_try F tokens = Returned (if in_identify_action F then ''SELECT'' else identify_action tokens)"
  "identify_table_try F tokens = Returned (if in_identify_table F then None else identify_table tokens)"
  "identify_columns_try F tokens tbl =
     Returned (if in_identify_columns F then [''*''] else identify_columns tokens tbl)"
  "identify_conditions_try F text =
     Returned (if in_identify_conditions F then [] else identify_conditions text)"
  by (simp_all add: identify_action_try_def identify_table_try_def identify_columns_try_def
        identify_conditions_try_def try_except_def body_of_def)

lemma generic_body_eq: "generic_body F tokens text = Returned (generic_with_defaults F tokens text)"
  unfolding generic_body_def generic_with_defaults_def matchers_try and_then_def outcome.case
  by (cases "if in_identify_table F then None else identify_table tokens") simp_all

lemma generic_no_faults: "generic_with_defaults no_faults tokens text = generic_query tokens text"
  by (simp add: generic_with_defaults_def generic_query_def no_faults_def Let_def split: option.splits)

lemma build_body_eq:
  "build_body F E text repo_id =
     (if in_build_sql_query F then Raised
      else Returned
        (if preprocess_text E text = [] then err_empty_input
         else case find (\<lambda>(p, r). p (lower text)) template_bank of
                Some (p, r) \<Rightarrow> r (lower text) repo_id
              | None \<Rightarrow> generic_with_defaults F (preprocess_text E text) text))"
  by (simp add: build_body_def preprocess_text_try_eq generic_body_eq and_then_def body_of_def
        template_bank_def Let_def)

lemma build_try_eq:
  "build_sql_query_try F E text repo_id =
     Returned
       (if in_build_sql_query F then err_internal
        else if preprocess_text E text = [] then err_empty_input
        else case find (\<lambda>(p, r). p (lower text)) template_bank of
               Some (p, r) \<Rightarrow> r (lower text) repo_id
             | None \<Rightarrow> generic_with_defaults F (preprocess_text E text) text)"
  by (simp add: build_sql_query_try_def build_body_eq try_except_def)

lemma generic_with_defaults_select:
  "generic_with_defaults F tokens text = err_no_table
   \<or> is_select_statement (generic_with_defaults F tokens text)"
proof (cases "if in_identify_table F then None else identify_table tokens")
  case None
  then show ?thesis by (simp add: generic_with_defaults_def)
next
  case (Some tbl)
  have "prefix ''SELECT '' ((if in_identify_action F then ''SELECT'' else identify_action tokens) @ '' '' @ x)" for x
    using identify_action_cases [of tokens] by auto
  then show ?thesis
    using Some by (simp add: generic_with_defaults_def is_select_statement_def)
qed

lemma build_try_outcomes:
  "\<exists>s. build_sql_query_try F E text repo_id = Returned s
       \<and> (s = err_empty_input \<or> s = err_no_table \<or> s = err_internal \<or> is_select_statement s)"
proof -
  have "s = err_no_table \<or> is_select_statement s"
    if "s = (case find (\<lambda>(p, r). p (lower text)) template_bank of
               Some (p, r) \<Rightarrow> r (lower text) repo_id
             | None \<Rightarrow> generic_with_defaults F (preprocess_text E text) text)" for s
  proof (cases "find (\<lambda>(p, r). p (lower text)) template_bank")
    case None
    with that generic_with_defaults_select [of F "preprocess_text E text" "text"] show ?thesis
      by simp
  next
    case (Some pr)
    obtain p r where pr: "pr = (p, r)" by (cases pr)
    from Some pr have "(p, r) \<in> set template_bank \<and> p (lower text)"
      by (auto dest: find_Some_member)
    then have "is_select_statement (r (lower text) repo_id)"
      by (auto intro: template_select)
    with that Some pr show ?thesis by simp
  qed
  then show ?thesis
    unfolding build_try_eq by auto
qed

lemma build_try_no_faults:
  "build_sql_query_try no_faults E text repo_id = Returned (build_sql_query E text repo_id)"
  unfolding build_try_eq build_unfold generic_no_faults
  by (simp add: no_faults_def)

lemma build_try_no_internal:
  assumes "\<not> in_build_sql_query F"
  shows "build_sql_query_try F E text repo_id \<noteq> Returned err_internal"
proof -
  let ?s = "case find (\<lambda>(p, r). p (lower text)) template_bank of
               Some (p, r) \<Rightarrow> r (lower text) repo_id
             | None \<Rightarrow> generic_with_defaults F (preprocess_text E text) text"
  have "?s = err_no_table \<or> is_select_statement ?s"
  proof (cases "find (\<lambda>(p, r). p (lower text)) template_bank")
    case None
    with generic_with_defaults_select [of F "preprocess_text E text" "text"] show ?thesis
      by simp
  next
    case (Some pr)
    obtain p r where pr: "pr = (p, r)" by (cases pr)
    from Some pr have "(p, r) \<in> set template_bank \<and> p (lower text)"
      by (auto dest: find_Some_member)
    then have "is_select_statement (r (lower text) repo_id)"
      by (auto intro: template_select)
    with Some pr show ?thesis by simp
  qed
  then have "?s \<noteq> err_internal"
    using errors_not_select by auto
  then show ?thesis
    unfolding build_try_eq using assms errors_not_select by auto
qed

section \<open>The claims\<close>

text \<open>
  C5 (as amended).  \<open>build_sql_query\<close> on the text \<open>how many commits\<close> with
  \<open>repo_id = 42\<close>, whenever normalization leaves a token, returns the count-commits
  statement scoped to repository 42; the clause it splices in ends with a blank, so the
  statement ends in \<open>42 ;\<close>.
\<close>

theorem count_commits_scenario:
  assumes "preprocess_text E ''how many commits'' \<noteq> []"
  shows "build_sql_query E ''how many commits'' (Some 42) =
           ''SELECT COUNT(*) AS total_commits FROM commits WHERE repo_id = 42 ;''"
proof -
  have l: "lower ''how many commits'' = ''how many commits''"
    by code_simp
  have n: "\<not> asks_bug_introducer ''how many commits'' \<and> \<not> asks_most_changed_file ''how many commits''
      \<and> \<not> asks_most_added_file ''how many commits'' \<and> \<not> asks_most_deleted_file ''how many commits''
      \<and> \<not> asks_top_files ''how many commits'' \<and> \<not> asks_top_contributor ''how many commits''
      \<and> \<not> asks_top_contributors_by_commit ''how many commits'' \<and> \<not> asks_top_n_contributors ''how many commits''
      \<and> \<not> asks_bottom_contributors ''how many commits'' \<and> \<not> asks_commits_last_30_days ''how many commits''
      \<and> \<not> asks_most_active_30_days ''how many commits'' \<and> asks_count_commits ''how many commits''"
    by code_simp
  have r: "sql_count_commits ''how many commits'' (Some 42) =
       ''SELECT COUNT(*) AS total_commits FROM commits WHERE repo_id = 42 ;''"
    by code_simp
  have "find (\<lambda>(p, r). p (lower ''how many commits'')) template_bank = Some (asks_count_commits, sql_count_commits)"
    unfolding l template_bank_def using n by simp
  from build_template [OF assms this] r show ?thesis
    by (simp only: l)
qed

theorem count_commits_scenario_witness:
  "preprocess_text simple_nlp ''how many commits'' \<noteq> [] \<and>
   build_sql_query simple_nlp ''how many commits'' (Some 42) =
     ''SELECT COUNT(*) AS total_commits FROM commits WHERE repo_id = 42 ;''"
proof -
  have h: "preprocess_text simple_nlp ''how many commits'' \<noteq> []"
    by code_simp
  from count_commits_scenario [OF h] h show ?thesis
    by blast
qed

text \<open>The string of the claim, without the blank before the semicolon, is not what is returned.\<close>

theorem count_commits_scenario_counterexample:
  "build_sql_query simple_nlp ''how many commits'' (Some 42) \<noteq>
     ''SELECT COUNT(*) AS total_commits FROM commits WHERE repo_id = 42;''"
  by code_simp

text \<open>
  C4 (as amended).  On \<open>Show repositories with more than 1000 stars\<close>, with the tokens
  show, repositories, 1000, stars, no special case fires; the generic path finds the
  action \<open>SELECT\<close>, the table \<open>repositories\<close> and the single filter \<open>stars >= 1000\<close>.
  The token \<open>stars\<close> names a column of the table, so the column list is that column
  alone, not the default list of the table.
\<close>

theorem star_filter_scenario:
  assumes "preprocess_text E ''Show repositories with more than 1000 stars'' =
             [''show'', ''repositories'', ''1000'', ''stars'']"
  shows "\<not> template_matches (lower ''Show repositories with more than 1000 stars'')
       \<and> identify_action (preprocess_text E ''Show repositories with more than 1000 stars'') = ''SELECT''
       \<and> identify_table (preprocess_text E ''Show repositories with more than 1000 stars'') = Some ''repositories''
       \<and> identify_conditions ''Show repositories with more than 1000 stars'' = [''stars >= 1000'']
       \<and> identify_columns (preprocess_text E ''Show repositories with more than 1000 stars'')
            (Some ''repositories'') = [''stars'']
       \<and> build_sql_query E ''Show repositories with more than 1000 stars'' repo_id =
            ''SELECT stars FROM repositories WHERE stars >= 1000;''"
proof -
  have m: "\<not> template_matches (lower ''Show repositories with more than 1000 stars'')"
    by code_simp
  have a: "identify_action [''show'', ''repositories'', ''1000'', ''stars''] = ''SELECT''"
    by code_simp
  have t: "identify_table [''show'', ''repositories'', ''1000'', ''stars''] = Some ''repositories''"
    by code_simp
  have c: "identify_conditions ''Show repositories with more than 1000 stars'' = [''stars >= 1000'']"
    by code_simp
  have k: "identify_columns [''show'', ''repositories'', ''1000'', ''stars''] (Some ''repositories'') = [''stars'']"
    by code_simp
  have g: "generic_query [''show'', ''repositories'', ''1000'', ''stars''] ''Show repositories with more than 1000 stars''
             = ''SELECT stars FROM repositories WHERE stars >= 1000;''"
    by code_simp
  have "preprocess_text E ''Show repositories with more than 1000 stars'' \<noteq> []"
    using assms by simp
  from build_generic [OF this m, of repo_id] g
  have "build_sql_query E ''Show repositories with more than 1000 stars'' repo_id =
            ''SELECT stars FROM repositories WHERE stars >= 1000;''"
    by (simp only: assms)
  with m a t c k show ?thesis
    by (simp only: assms simp_thms)
qed

theorem star_filter_scenario_witness:
  "preprocess_text simple_nlp ''Show repositories with more than 1000 stars'' =
     [''show'', ''repositories'', ''1000'', ''stars'']
   \<and> identify_columns (preprocess_text simple_nlp ''Show repositories with more than 1000 stars'')
        (Some ''repositories'') = [''stars'']
   \<and> build_sql_query simple_nlp ''Show repositories with more than 1000 stars'' None =
        ''SELECT stars FROM repositories WHERE stars >= 1000;''"
proof -
  have h: "preprocess_text simple_nlp ''Show repositories with more than 1000 stars'' =
     [''show'', ''repositories'', ''1000'', ''stars'']"
    by code_simp
  from star_filter_scenario [OF h, of None] h show ?thesis
    by blast
qed

text \<open>The column list selected for the scenario is not the default list of \<open>repositories\<close>.\<close>

theorem star_filter_scenario_counterexample:
  "identify_columns (preprocess_text simple_nlp ''Show repositories with more than 1000 stars'')
     (identify_table (preprocess_text simple_nlp ''Show repositories with more than 1000 stars''))
   \<noteq> [''repo_id'', ''name'', ''stars'', ''forks'']"
  by code_simp

text \<open>
  C10 (as amended).  When the first retained token that is a key of the keyword table is
  \<open>count\<close>, the tokens resolve to a table and no special case fires, the generic path
  takes the action \<open>SELECT COUNT(*)\<close> and the column list \<open>[COUNT(*)]\<close> and renders
  both: the statement begins \<open>SELECT COUNT(*) COUNT(*) FROM\<close>.
\<close>

theorem count_rendered_twice:
  assumes "first_keyword (preprocess_text E text) = Some ''SELECT COUNT(*)''"
    and "identify_table (preprocess_text E text) = Some tbl"
    and "\<not> template_matches (lower text)"
  shows "identify_action (preprocess_text E text) = ''SELECT COUNT(*)''
       \<and> identify_columns (preprocess_text E text) (Some tbl) = [''COUNT(*)'']
       \<and> prefix (''SELECT COUNT(*) COUNT(*) FROM '' @ tbl) (build_sql_query E text repo_id)"
proof -
  let ?toks = "preprocess_text E text"
  have ne: "?toks \<noteq> []" using assms(1) by auto
  have a: "identify_action ?toks = ''SELECT COUNT(*)''"
    using assms(1) by (simp add: identify_action_def)
  have "''count'' \<in> set ?toks" using assms(1) by (rule first_keyword_count)
  then have "list_ex (\<lambda>word. word \<in> set [''count'', ''how many'', ''total'']) ?toks"
    unfolding list_ex_iff by (intro bexI [of _ "''count''"]) simp_all
  then have c: "identify_columns ?toks (Some tbl) = [''COUNT(*)'']"
    by (simp add: identify_columns_def)
  have "build_sql_query E text repo_id = generic_query ?toks text"
    using ne assms(3) by (rule build_generic)
  then have "prefix (''SELECT COUNT(*) COUNT(*) FROM '' @ tbl) (build_sql_query E text repo_id)"
    by (simp add: generic_query_def Let_def a c assms(2))
  with a c show ?thesis by simp
qed

theorem count_rendered_twice_witness:
  "first_keyword (preprocess_text simple_nlp ''count files'') = Some ''SELECT COUNT(*)''
   \<and> identify_table (preprocess_text simple_nlp ''count files'') = Some ''files''
   \<and> \<not> template_matches (lower ''count files'')
   \<and> prefix ''SELECT COUNT(*) COUNT(*) FROM files'' (build_sql_query simple_nlp ''count files'' None)"
proof -
  have h1: "first_keyword (preprocess_text simple_nlp ''count files'') = Some ''SELECT COUNT(*)''"
    by code_simp
  have h2: "identify_table (preprocess_text simple_nlp ''count files'') = Some ''files''"
    by code_simp
  have h3: "\<not> template_matches (lower ''count files'')"
    by code_simp
  from count_rendered_twice [OF h1 h2 h3, of None] h1 h2 h3 show ?thesis
    by simp
qed

text \<open>
  With a keyword of the \<open>SELECT\<close> family before \<open>count\<close>, the action is \<open>SELECT\<close>
  and the aggregate is rendered once.
\<close>

theorem count_rendered_twice_counterexample:
  "''count'' \<in> set (preprocess_text simple_nlp ''show count files'')
   \<and> identify_table (preprocess_text simple_nlp ''show count files'') = Some ''files''
   \<and> \<not> template_matches (lower ''show count files'')
   \<and> build_sql_query simple_nlp ''show count files'' None = ''SELECT COUNT(*) FROM files;''
   \<and> \<not> prefix ''SELECT COUNT(*) COUNT(*) FROM'' (build_sql_query simple_nlp ''show count files'' None)"
  by code_simp

text \<open>
  C7.  Entity resolution is order-stable: when the tokens mention the synonyms of two
  entities of the catalog, and no entity declared before the earlier one is mentioned,
  \<open>identify_table\<close> returns the table of the earlier one, never that of the later one.
\<close>

theorem entity_order_stable:
  assumes "i < j" and "j < length entity_mapping"
    and "mentions words (snd (entity_mapping ! i))"
    and "mentions words (snd (entity_mapping ! j))"
    and "\<forall>e\<in>set (take i entity_mapping). \<not> mentions words (snd e)"
  shows "identify_table words = Some (table (snd (entity_mapping ! i)))
       \<and> identify_table words \<noteq> Some (table (snd (entity_mapping ! j)))"
proof -
  have i: "i < length entity_mapping" using assms(1,2) by simp
  have r: "identify_table words = Some (table (snd (entity_mapping ! i)))"
    unfolding identify_table_def using i assms(3,5) by (rule first_entity_first)
  have "map (\<lambda>e. table (snd e)) entity_mapping ! i \<noteq> map (\<lambda>e. table (snd e)) entity_mapping ! j"
    using entity_tables_distinct assms(1,2) i by (simp add: distinct_conv_nth)
  then have "table (snd (entity_mapping ! i)) \<noteq> table (snd (entity_mapping ! j))"
    using i assms(2) by simp
  with r show ?thesis by simp
qed

theorem entity_order_stable_witness:
  "mentions [''changes''] (snd (entity_mapping ! 2)) \<and> mentions [''changes''] (snd (entity_mapping ! 4))
   \<and> table (snd (entity_mapping ! 2)) = ''commits'' \<and> table (snd (entity_mapping ! 4)) = ''diffs''
   \<and> identify_table [''changes''] = Some ''commits''"
proof -
  have h1: "(2::nat) < 4" by simp
  have h2: "4 < length entity_mapping" by (simp add: entity_mapping_def)
  have h3: "mentions [''changes''] (snd (entity_mapping ! 2))"
    by (simp add: entity_mapping_def mentions_def)
  have h4: "mentions [''changes''] (snd (entity_mapping ! 4))"
    by (simp add: entity_mapping_def mentions_def)
  have h5: "\<forall>e\<in>set (take 2 entity_mapping). \<not> mentions [''changes''] (snd e)"
    by (simp add: entity_mapping_def mentions_def numeral_2_eq_2)
  have t2: "table (snd (entity_mapping ! 2)) = ''commits''"
    by (simp add: entity_mapping_def)
  have t4: "table (snd (entity_mapping ! 4)) = ''diffs''"
    by (simp add: entity_mapping_def)
  from entity_order_stable [OF h1 h2 h3 h4 h5] h3 h4 t2 t4 show ?thesis
    by simp
qed

text \<open>
  C6 (as amended).  For each of the metrics \<open>stars\<close> and \<open>forks\<close>, the conditions hold
  exactly one condition on the metric when a number followed by the metric is found in
  the lowercased text, and none otherwise.  Its operator is chosen from the whole text:
  \<open>>=\<close> when \<open>more than\<close> or \<open>greater than\<close> occurs anywhere, else \<open><=\<close> when
  \<open>less than\<close> occurs anywhere, else \<open>=\<close>; both metrics get the same operator.  When
  both are found their conditions come first, stars before forks, and the generic path
  joins all conditions with \<open>AND\<close>.
\<close>

theorem count_condition_once:
  assumes "metric = ''stars'' \<or> metric = ''forks''"
    and "op = (if str_in ''more than'' (lower text) \<or> str_in ''greater than'' (lower text) then ''>=''
               else if str_in ''less than'' (lower text) then ''<=''
               else ''='')"
  shows "filter (prefix (metric @ '' '')) (identify_conditions text) =
           (case search_count metric (lower text) of
              Some num \<Rightarrow> [metric @ '' '' @ op @ '' '' @ num]
            | None \<Rightarrow> [])
       \<and> (search_count ''stars'' (lower text) = Some a \<and> search_count ''forks'' (lower text) = Some b
            \<longrightarrow> take 2 (identify_conditions text) =
                  [''stars '' @ op @ '' '' @ a, ''forks '' @ op @ '' '' @ b]
              \<and> prefix ('' WHERE stars '' @ op @ '' '' @ a @ '' AND forks '' @ op @ '' '' @ b)
                  (where_clause (identify_conditions text)))"
proof -
  let ?t = "lower text"
  have op: "comparison ?t = op"
    unfolding assms(2) by (simp add: comparison_def)
  have c: "identify_conditions text = count_condition ''stars'' ?t @ count_condition ''forks'' ?t @ time_condition ?t"
    by (simp add: identify_conditions_def Let_def)
  have 1: "filter (prefix (metric @ '' '')) (identify_conditions text) = count_condition metric ?t"
    using assms(1)
  proof
    assume "metric = ''stars''"
    then show ?thesis
      unfolding c by (simp add: stars_filter)
  next
    assume "metric = ''forks''"
    then show ?thesis
      unfolding c by (simp add: forks_filter)
  qed
  have 2: "take 2 (identify_conditions text) =
                  [''stars '' @ op @ '' '' @ a, ''forks '' @ op @ '' '' @ b]
              \<and> prefix ('' WHERE stars '' @ op @ '' '' @ a @ '' AND forks '' @ op @ '' '' @ b)
                  (where_clause (identify_conditions text))"
    if "search_count ''stars'' ?t = Some a" and "search_count ''forks'' ?t = Some b"
  proof -
    have "identify_conditions text =
       (''stars '' @ op @ '' '' @ a) # (''forks '' @ op @ '' '' @ b) # time_condition ?t"
      unfolding c count_condition_eq op using that by simp
    then show ?thesis
      by (cases "time_condition ?t") (simp_all add: where_clause_def)
  qed
  have 3: "filter (prefix (metric @ '' '')) (identify_conditions text) =
           (case search_count metric ?t of
              Some num \<Rightarrow> [metric @ '' '' @ op @ '' '' @ num]
            | None \<Rightarrow> [])"
    unfolding 1 by (cases "search_count metric ?t") (simp_all add: count_condition_eq op)
  from 2 3 show ?thesis
    by blast
qed

theorem count_condition_once_witness:
  "filter (prefix ''forks '') (identify_conditions ''less than 10 Stars or 5 forks'') = [''forks <= 5'']
   \<and> take 2 (identify_conditions ''less than 10 Stars or 5 forks'') = [''stars <= 10'', ''forks <= 5'']
   \<and> prefix '' WHERE stars <= 10 AND forks <= 5''
        (where_clause (identify_conditions ''less than 10 Stars or 5 forks''))
   \<and> filter (prefix ''forks '') (identify_conditions ''repos with greater than 3 forks'') = [''forks >= 3'']
   \<and> filter (prefix ''stars '') (identify_conditions ''repos with greater than 3 forks'') = []
   \<and> filter (prefix ''stars '') (identify_conditions ''repos with more than 2 stars'') = [''stars >= 2'']
   \<and> filter (prefix ''stars '') (identify_conditions ''repos with 7 stars'') = [''stars = 7'']"
proof -
  have mf: "''forks'' = ''stars'' \<or> ''forks'' = ''forks''" by simp
  have ms: "''stars'' = ''stars'' \<or> ''stars'' = ''forks''" by simp
  let ?t1 = "''less than 10 Stars or 5 forks''"
  have o1: "''<='' = (if str_in ''more than'' (lower ?t1) \<or> str_in ''greater than'' (lower ?t1) then ''>=''
               else if str_in ''less than'' (lower ?t1) then ''<='' else ''='')" by code_simp
  have s1: "search_count ''stars'' (lower ?t1) = Some ''10''" by code_simp
  have f1: "search_count ''forks'' (lower ?t1) = Some ''5''" by code_simp
  let ?t2 = "''repos with greater than 3 forks''"
  have o2: "''>='' = (if str_in ''more than'' (lower ?t2) \<or> str_in ''greater than'' (lower ?t2) then ''>=''
               else if str_in ''less than'' (lower ?t2) then ''<='' else ''='')" by code_simp
  have s2: "search_count ''stars'' (lower ?t2) = None" by code_simp
  have f2: "search_count ''forks'' (lower ?t2) = Some ''3''" by code_simp
  let ?t3 = "''repos with more than 2 stars''"
  have o3: "''>='' = (if str_in ''more than'' (lower ?t3) \<or> str_in ''greater than'' (lower ?t3) then ''>=''
               else if str_in ''less than'' (lower ?t3) then ''<='' else ''='')" by code_simp
  have s3: "search_count ''stars'' (lower ?t3) = Some ''2''" by code_simp
  let ?t4 = "''repos with 7 stars''"
  have o4: "''='' = (if str_in ''more than'' (lower ?t4) \<or> str_in ''greater than'' (lower ?t4) then ''>=''
               else if str_in ''less than'' (lower ?t4) then ''<='' else ''='')" by code_simp
  have s4: "search_count ''stars'' (lower ?t4) = Some ''7''" by code_simp
  from count_condition_once [OF mf o1, of "''10''" "''5''"] s1 f1
  have 1: "filter (prefix ''forks '') (identify_conditions ?t1) = [''forks <= 5'']
     \<and> take 2 (identify_conditions ?t1) = [''stars <= 10'', ''forks <= 5'']
     \<and> prefix '' WHERE stars <= 10 AND forks <= 5'' (where_clause (identify_conditions ?t1))"
    by simp
  from count_condition_once [OF mf o2] f2
  have 2: "filter (prefix ''forks '') (identify_conditions ?t2) = [''forks >= 3'']" by simp
  from count_condition_once [OF ms o2] s2
  have 3: "filter (prefix ''stars '') (identify_conditions ?t2) = []" by simp
  from count_condition_once [OF ms o3] s3
  have 4: "filter (prefix ''stars '') (identify_conditions ?t3) = [''stars >= 2'']" by simp
  from count_condition_once [OF ms o4] s4
  have 5: "filter (prefix ''stars '') (identify_conditions ?t4) = [''stars = 7'']" by simp
  from 1 2 3 4 5 show ?thesis by (simp only: simp_thms)
qed

text \<open>
  A text with a directional phrase of its own for each metric: the forks filter gets the
  operator of the phrase found first in the test order, not that of \<open>less than\<close>.
\<close>

theorem count_condition_once_counterexample:
  "identify_conditions ''more than 10 stars and less than 5 forks'' = [''stars >= 10'', ''forks >= 5'']
   \<and> ''forks <= 5'' \<notin> set (identify_conditions ''more than 10 stars and less than 5 forks'')"
  by code_simp

text \<open>
  C8.  On the generic path the \<open>GROUP BY\<close> branch never fires: \<open>identify_table\<close> only
  returns the lowercase table names of the catalog, never \<open>Repository\<close> or \<open>Author\<close>,
  so the clause is empty whatever the text says, and the statement (or error) returned
  does not contain \<open>GROUP BY\<close>.
\<close>

theorem group_by_unreachable:
  assumes "preprocess_text E text \<noteq> []" and "\<not> template_matches (lower text)"
  shows "(\<forall>tbl. identify_table (preprocess_text E text) = Some tbl \<longrightarrow>
            tbl \<in> {''repositories'', ''authors'', ''commits'', ''files'', ''diffs''}
            \<and> tbl \<noteq> ''Repository'' \<and> tbl \<noteq> ''Author''
            \<and> group_by_clause (lower text) tbl = [])
       \<and> \<not> str_in ''GROUP BY'' (build_sql_query E text repo_id)"
proof -
  have 1: "tbl \<in> {''repositories'', ''authors'', ''commits'', ''files'', ''diffs''}
            \<and> tbl \<noteq> ''Repository'' \<and> tbl \<noteq> ''Author''
            \<and> group_by_clause (lower text) tbl = []"
    if "identify_table (preprocess_text E text) = Some tbl" for tbl
  proof -
    from that have t: "tbl \<in> {''repositories'', ''authors'', ''commits'', ''files'', ''diffs''}"
      by (rule identify_table_cases)
    then have "tbl \<noteq> ''Repository'' \<and> tbl \<noteq> ''Author''" by auto
    with t group_by_clause_dead [OF t] show ?thesis by simp
  qed
  have "build_sql_query E text repo_id = generic_query (preprocess_text E text) text"
    using assms by (rule build_generic)
  then have "CHR ''G'' \<notin> set (build_sql_query E text repo_id)"
    by (simp add: generic_query_noG)
  then have "\<not> str_in ''GROUP BY'' (build_sql_query E text repo_id)"
    by (auto dest: str_in_set)
  with 1 show ?thesis by blast
qed

theorem group_by_unreachable_witness:
  "preprocess_text simple_nlp ''list repos per owner'' \<noteq> []
   \<and> \<not> template_matches (lower ''list repos per owner'')
   \<and> any_in [''per'', ''group by'', ''count by''] (lower ''list repos per owner'')
   \<and> identify_table (preprocess_text simple_nlp ''list repos per owner'') = Some ''repositories''
   \<and> group_by_clause (lower ''list repos per owner'') ''repositories'' = []
   \<and> \<not> str_in ''GROUP BY'' (build_sql_query simple_nlp ''list repos per owner'' None)"
proof -
  have h1: "preprocess_text simple_nlp ''list repos per owner'' \<noteq> []" by code_simp
  have h2: "\<not> template_matches (lower ''list repos per owner'')" by code_simp
  have h3: "any_in [''per'', ''group by'', ''count by''] (lower ''list repos per owner'')" by code_simp
  have h4: "identify_table (preprocess_text simple_nlp ''list repos per owner'') = Some ''repositories''"
    by code_simp
  from group_by_unreachable [OF h1 h2, of None] h1 h2 h3 h4 show ?thesis
    by simp
qed

text \<open>
  C1 (as amended).  For every input that normalization leaves at least one token and
  whose lowercased text satisfies some special-case predicate, \<open>build_sql_query\<close>
  returns the SQL of the first such template of the bank, in declared order; the tokens
  play no part in it, so neither later templates nor the generic matchers contribute.
\<close>

theorem template_precedence:
  assumes "preprocess_text E text \<noteq> []"
    and "find (\<lambda>(p, r). p (lower text)) template_bank = Some (p, r)"
  shows "build_sql_query E text repo_id = r (lower text) repo_id
       \<and> (\<exists>i<length template_bank. template_bank ! i = (p, r) \<and> p (lower text)
             \<and> (\<forall>j<i. \<not> fst (template_bank ! j) (lower text)))
       \<and> (\<forall>E'. preprocess_text E' text \<noteq> [] \<longrightarrow>
             build_sql_query E' text repo_id = build_sql_query E text repo_id)"
proof -
  have 1: "build_sql_query E text repo_id = r (lower text) repo_id"
    using assms by (rule build_template)
  have 2: "\<exists>i<length template_bank. template_bank ! i = (p, r) \<and> p (lower text)
             \<and> (\<forall>j<i. \<not> fst (template_bank ! j) (lower text))"
    using find_first_index [OF assms(2)] by (simp add: case_prod_beta)
  have 3: "build_sql_query E' text repo_id = build_sql_query E text repo_id"
    if "preprocess_text E' text \<noteq> []" for E'
    using build_template [OF that assms(2)] 1 by simp
  show ?thesis
  proof (intro conjI allI impI)
    show "build_sql_query E text repo_id = r (lower text) repo_id" by (rule 1)
    show "\<exists>i<length template_bank. template_bank ! i = (p, r) \<and> p (lower text)
             \<and> (\<forall>j<i. \<not> fst (template_bank ! j) (lower text))" by (rule 2)
    show "build_sql_query E' text repo_id = build_sql_query E text repo_id"
      if "preprocess_text E' text \<noteq> []" for E' using that by (rule 3)
  qed
qed

theorem template_precedence_witness:
  "preprocess_text simple_nlp ''how many commits by author'' \<noteq> []
   \<and> asks_count_commits (lower ''how many commits by author'')
   \<and> asks_count_contributors (lower ''how many commits by author'')
   \<and> build_sql_query simple_nlp ''how many commits by author'' None =
        sql_count_commits (lower ''how many commits by author'') None"
proof -
  let ?t = "''how many commits by author''"
  have h: "preprocess_text simple_nlp ?t \<noteq> []" by code_simp
  have l: "lower ?t = ?t" by code_simp
  have n: "\<not> asks_bug_introducer ?t \<and> \<not> asks_most_changed_file ?t
      \<and> \<not> asks_most_added_file ?t \<and> \<not> asks_most_deleted_file ?t
      \<and> \<not> asks_top_files ?t \<and> \<not> asks_top_contributor ?t
      \<and> \<not> asks_top_contributors_by_commit ?t \<and> \<not> asks_top_n_contributors ?t
      \<and> \<not> asks_bottom_contributors ?t \<and> \<not> asks_commits_last_30_days ?t
      \<and> \<not> asks_most_active_30_days ?t \<and> asks_count_commits ?t \<and> asks_count_contributors ?t"
    by code_simp
  have f: "find (\<lambda>(p, r). p (lower ?t)) template_bank = Some (asks_count_commits, sql_count_commits)"
    unfolding l template_bank_def using n by simp
  from template_precedence [OF h f, of None]
  have "build_sql_query simple_nlp ?t None = sql_count_commits (lower ?t) None" by (rule conjunct1)
  with h n show ?thesis
    by (simp only: l simp_thms)
qed

text \<open>
  A text whose only token is discarded by normalization: a special-case predicate holds
  of it, yet no template is rendered.
\<close>

theorem template_precedence_counterexample:
  "asks_count_contributors (lower ''count_authors'')
   \<and> template_matches (lower ''count_authors'')
   \<and> build_sql_query simple_nlp ''count_authors'' None = ''Error: Could not process the input text''"
  by code_simp

text \<open>
  C2 (as amended).  \<open>build_sql_query\<close> returns the EmptyInput error exactly when
  normalization yields no usable token, whether or not a special-case predicate holds of
  the text.  Texts made of whitespace only (the empty text among them) yield it, for any
  tokenizer whose tokens are made of characters of its input.
\<close>

theorem empty_input_exactly:
  "(build_sql_query E text repo_id = err_empty_input \<longleftrightarrow> preprocess_text E text = [])
   \<and> ((\<forall>c\<in>set text. is_space c)
        \<and> (\<forall>toks. word_tokenize E (lower text) = Some toks \<longrightarrow> (\<forall>w\<in>set toks. set w \<subseteq> set (lower text)))
      \<longrightarrow> build_sql_query E text repo_id = err_empty_input)"
proof -
  have 1: "preprocess_text E text = []" if "build_sql_query E text repo_id = err_empty_input"
  proof (rule ccontr)
    assume ne: "preprocess_text E text \<noteq> []"
    have "build_sql_query E text repo_id = generic_query (preprocess_text E text) text
          \<or> is_select_statement (build_sql_query E text repo_id)"
    proof (cases "find (\<lambda>(p, r). p (lower text)) template_bank")
      case None
      then have "\<not> template_matches (lower text)" by (simp add: find_bank_none)
      with ne show ?thesis by (simp add: build_generic)
    next
      case (Some pr)
      obtain p r where pr: "pr = (p, r)" by (cases pr)
      from Some pr have "(p, r) \<in> set template_bank \<and> p (lower text)"
        by (auto dest: find_Some_member)
      then have "is_select_statement (r (lower text) repo_id)"
        by (auto intro: template_select)
      then show ?thesis using ne Some pr by (simp add: build_template)
    qed
    with generic_select [of "preprocess_text E text" "text"]
    have "build_sql_query E text repo_id = err_no_table
          \<or> is_select_statement (build_sql_query E text repo_id)"
      by auto
    with that errors_not_select show False by auto
  qed
  have 2: "build_sql_query E text repo_id = err_empty_input"
    if "\<forall>c\<in>set text. is_space c"
      and "\<forall>toks. word_tokenize E (lower text) = Some toks \<longrightarrow> (\<forall>w\<in>set toks. set w \<subseteq> set (lower text))"
    using blank_text_tokens [OF that] by (rule build_empty)
  from 1 2 build_empty [of E "text" repo_id] show ?thesis by blast
qed

theorem empty_input_exactly_witness:
  "preprocess_text simple_nlp [] = [] \<and> build_sql_query simple_nlp [] None = err_empty_input
   \<and> list_all is_space ''   '' \<and> build_sql_query simple_nlp ''   '' (Some 1) = err_empty_input"
proof -
  have h0: "preprocess_text simple_nlp [] = []" by code_simp
  have h1: "\<forall>c\<in>set ''   ''. is_space c" by code_simp
  have l: "lower ''   '' = ''   ''" by code_simp
  have t: "split_blanks [] ''   '' = []" by code_simp
  have h2: "\<forall>toks. word_tokenize simple_nlp (lower ''   '') = Some toks
              \<longrightarrow> (\<forall>w\<in>set toks. set w \<subseteq> set (lower ''   ''))"
    unfolding l by (simp add: simple_nlp_def t)
  from empty_input_exactly [of simple_nlp "[]" None] empty_input_exactly [of simple_nlp "''   ''" "Some 1"]
    h0 h1 h2
  show ?thesis unfolding list_all_iff by blast
qed

text \<open>
  The only token of the text is discarded by normalization and a special-case predicate
  holds of the text: the EmptyInput error is returned, not the template's statement.
\<close>

theorem empty_input_exactly_counterexample:
  "word_tokenize simple_nlp (lower ''count_commits'') = Some [''count_commits'']
   \<and> preprocess_text simple_nlp ''count_commits'' = []
   \<and> asks_count_commits (lower ''count_commits'')
   \<and> build_sql_query simple_nlp ''count_commits'' None = err_empty_input
   \<and> build_sql_query simple_nlp ''count_commits'' None \<noteq> sql_count_commits (lower ''count_commits'') None"
  by code_simp

text \<open>
  C9.  With its handlers, \<open>build_sql_query\<close> never raises: whatever the tokenizer does
  and in whichever bodies an exception is raised, it returns one of the three error
  values or a statement that starts with \<open>SELECT\<close> and ends with a semicolon, and these
  are pairwise different.  An exception in its own body gives the InternalFault value,
  and nothing else does.  A tokenizer that raises is caught in \<open>preprocess_text\<close> and
  counts as no tokens, which gives the EmptyInput value.  An exception in a matcher is
  caught at that matcher, which then returns its default (\<open>SELECT\<close>, no table, \<open>*\<close>, no
  conditions); the compile goes on with the default, so on the generic path the result
  is the statement assembled from the defaults, or the NoEntity value when no table is
  found.  A run in which nothing raises returns what \<open>build_sql_query\<close> computes.
\<close>

theorem build_never_raises:
  "(\<exists>s. build_sql_query_try F E text repo_id = Returned s
        \<and> (s = err_empty_input \<or> s = err_no_table \<or> s = err_internal \<or> is_select_statement s))
   \<and> (in_build_sql_query F \<longrightarrow> build_sql_query_try F E text repo_id = Returned err_internal)
   \<and> (\<not> in_build_sql_query F \<longrightarrow> build_sql_query_try F E text repo_id \<noteq> Returned err_internal)
   \<and> (\<not> in_build_sql_query F \<and> word_tokenize E (lower text) = None \<longrightarrow>
         preprocess_text_try E text = Returned []
         \<and> build_sql_query_try F E text repo_id = Returned err_empty_input)
   \<and> identify_action_try F tokens =
         Returned (if in_identify_action F then ''SELECT'' else identify_action tokens)
   \<and> identify_table_try F tokens =
         Returned (if in_identify_table F then None else identify_table tokens)
   \<and> identify_columns_try F tokens tbl =
         Returned (if in_identify_columns F then [''*''] else identify_columns tokens tbl)
   \<and> identify_conditions_try F text =
         Returned (if in_identify_conditions F then [] else identify_conditions text)
   \<and> (\<not> in_build_sql_query F \<and> preprocess_text E text \<noteq> [] \<and> \<not> template_matches (lower text) \<longrightarrow>
         build_sql_query_try F E text repo_id =
           Returned (generic_with_defaults F (preprocess_text E text) text)
         \<and> (in_identify_table F \<or> identify_table (preprocess_text E text) = None \<longrightarrow>
               build_sql_query_try F E text repo_id = Returned err_no_table)
         \<and> (\<not> in_identify_table F \<and> identify_table (preprocess_text E text) \<noteq> None \<longrightarrow>
               is_select_statement (generic_with_defaults F (preprocess_text E text) text)))
   \<and> build_sql_query_try no_faults E text repo_id = Returned (build_sql_query E text repo_id)
   \<and> \<not> is_select_statement err_empty_input \<and> \<not> is_select_statement err_no_table
   \<and> \<not> is_select_statement err_internal
   \<and> err_empty_input \<noteq> err_no_table \<and> err_empty_input \<noteq> err_internal \<and> err_no_table \<noteq> err_internal"
proof -
  have 1: "in_build_sql_query F \<longrightarrow> build_sql_query_try F E text repo_id = Returned err_internal"
    by (simp add: build_try_eq)
  have 2: "\<not> in_build_sql_query F \<longrightarrow> build_sql_query_try F E text repo_id \<noteq> Returned err_internal"
    by (simp add: build_try_no_internal)
  have 3: "\<not> in_build_sql_query F \<and> word_tokenize E (lower text) = None \<longrightarrow>
         preprocess_text_try E text = Returned []
         \<and> build_sql_query_try F E text repo_id = Returned err_empty_input"
    by (simp add: build_try_eq preprocess_text_try_eq preprocess_text_def)
  have g: "build_sql_query_try F E text repo_id =
           Returned (generic_with_defaults F (preprocess_text E text) text)"
    if "\<not> in_build_sql_query F" "preprocess_text E text \<noteq> []" "\<not> template_matches (lower text)"
    using that by (simp add: build_try_eq find_bank_none [symmetric])
  have t: "generic_with_defaults F (preprocess_text E text) text = err_no_table"
    if "in_identify_table F \<or> identify_table (preprocess_text E text) = None"
    using that by (auto simp add: generic_with_defaults_def)
  have s: "is_select_statement (generic_with_defaults F (preprocess_text E text) text)"
    if "\<not> in_identify_table F \<and> identify_table (preprocess_text E text) \<noteq> None"
  proof -
    from that have "generic_with_defaults F (preprocess_text E text) text \<noteq> err_no_table"
      by (auto simp add: generic_with_defaults_def err_no_table_def)
    with generic_with_defaults_select [of F "preprocess_text E text" "text"] show ?thesis
      by blast
  qed
  have 4: "\<not> in_build_sql_query F \<and> preprocess_text E text \<noteq> [] \<and> \<not> template_matches (lower text) \<longrightarrow>
         build_sql_query_try F E text repo_id =
           Returned (generic_with_defaults F (preprocess_text E text) text)
         \<and> (in_identify_table F \<or> identify_table (preprocess_text E text) = None \<longrightarrow>
               build_sql_query_try F E text repo_id = Returned err_no_table)
         \<and> (\<not> in_identify_table F \<and> identify_table (preprocess_text E text) \<noteq> None \<longrightarrow>
               is_select_statement (generic_with_defaults F (preprocess_text E text) text))"
    using g t s by metis
  show ?thesis
    using build_try_outcomes [of F E "text" repo_id] 1 2 3 4 matchers_try [of F]
      build_try_no_faults [of E "text" repo_id] errors_not_select
    by (intro conjI) (assumption | rule matchers_try)+
qed

theorem build_never_raises_witness:
  "build_sql_query_try build_fault simple_nlp ''count repos with more than 5 stars'' None
     = Returned err_internal
   \<and> build_sql_query_try matcher_faults simple_nlp ''count repos with more than 5 stars'' None
     = Returned ''SELECT * FROM repositories;''
   \<and> build_sql_query_try no_faults simple_nlp ''count repos with more than 5 stars'' None
     = Returned ''SELECT COUNT(*) COUNT(*) FROM repositories WHERE stars >= 5;''
   \<and> build_sql_query_try no_faults failing_nlp ''how many commits'' (Some 42) = Returned err_empty_input"
proof -
  let ?t = "''count repos with more than 5 stars''"
  have b: "in_build_sql_query build_fault" by (simp add: build_fault_def)
  from build_never_raises [of build_fault simple_nlp ?t None "[]" None] b
  have 1: "build_sql_query_try build_fault simple_nlp ?t None = Returned err_internal"
    by blast
  have m: "\<not> in_build_sql_query matcher_faults" by (simp add: matcher_faults_def)
  have p: "preprocess_text simple_nlp ?t \<noteq> []" by code_simp
  have n: "\<not> template_matches (lower ?t)" by code_simp
  have g: "generic_with_defaults matcher_faults (preprocess_text simple_nlp ?t) ?t
             = ''SELECT * FROM repositories;''" by code_simp
  from build_never_raises [of matcher_faults simple_nlp ?t None "[]" None] m p n
  have "build_sql_query_try matcher_faults simple_nlp ?t None
          = Returned (generic_with_defaults matcher_faults (preprocess_text simple_nlp ?t) ?t)"
    by blast
  then have 2: "build_sql_query_try matcher_faults simple_nlp ?t None = Returned ''SELECT * FROM repositories;''"
    by (simp only: g)
  have q: "build_sql_query simple_nlp ?t None
             = ''SELECT COUNT(*) COUNT(*) FROM repositories WHERE stars >= 5;''" by code_simp
  from build_never_raises [of no_faults simple_nlp ?t None "[]" None]
  have "build_sql_query_try no_faults simple_nlp ?t None = Returned (build_sql_query simple_nlp ?t None)"
    by blast
  then have 3: "build_sql_query_try no_faults simple_nlp ?t None
                  = Returned ''SELECT COUNT(*) COUNT(*) FROM repositories WHERE stars >= 5;''"
    by (simp only: q)
  have f: "\<not> in_build_sql_query no_faults" by (simp add: no_faults_def)
  have z: "word_tokenize failing_nlp (lower ''how many commits'') = None"
    by (simp add: failing_nlp_def)
  from build_never_raises [of no_faults failing_nlp "''how many commits''" "Some 42" "[]" None] f z
  have 4: "build_sql_query_try no_faults failing_nlp ''how many commits'' (Some 42) = Returned err_empty_input"
    by blast
  from 1 2 3 4 show ?thesis by (simp only: simp_thms)
qed

text \<open>
  C3.  The code departs from the claim on the top-N-contributors template.  The text
  \<open>top 5 contributors\<close> triggers it, and with \<open>repo_id = 42\<close> the statement returned
  has no \<open>WHERE\<close> clause: it counts the commits of every repository.  The sibling
  templates for the bottom N contributors and for the top contributor, given the same
  \<open>repo_id\<close>, scope their statement with \<open>WHERE commits.repo_id = 42\<close>.
\<close>

theorem top_n_contributors_unscoped:
  "asks_top_n_contributors (lower ''top 5 contributors'')
   \<and> build_sql_query simple_nlp ''top 5 contributors'' (Some 42) =
        ''SELECT authors.name, COUNT(commits.commit_id) as commit_count FROM authors JOIN commits ON authors.author_id = commits.author_id GROUP BY authors.author_id, authors.name ORDER BY commit_count DESC LIMIT 5;''
   \<and> \<not> str_in ''WHERE'' (build_sql_query simple_nlp ''top 5 contributors'' (Some 42))
   \<and> str_in ''WHERE commits.repo_id = 42 ''
        (build_sql_query simple_nlp ''bottom 5 contributors'' (Some 42))
   \<and> str_in ''WHERE commits.repo_id = 42 ''
        (build_sql_query simple_nlp ''which developer contributed the most'' (Some 42))"
  by code_simp

end
